theory Spec2Isabelle
  imports Complex_Main
begin

section \<open>JavaScript strings and the regular expressions of the source\<close>

text \<open>
  A URL is a JavaScript string, modelled as a list of characters. The empty string is the
  only falsy string. JavaScript numbers that hold integers are modelled as unbounded
  integers (they agree with doubles below 2^53). Ratios and confidences are rationals: the
  quotients and products that the code compares with 0.3, 0.4, 0.5, 0.7 and 0.8 are either
  equal to the threshold in exact arithmetic, and then the double is the threshold's double,
  or far from it, so each comparison has the same outcome on doubles.
\<close>

type_synonym url = string

definition is_digit :: "char \<Rightarrow> bool" where
  "is_digit c = (c \<in> set ''0123456789'')"

definition is_hexdash :: "char \<Rightarrow> bool" where
  "is_hexdash c = (c \<in> set ''abcdef0123456789-'')"

definition is_sep :: "char \<Rightarrow> bool" where
  "is_sep c = (c = CHR ''-'' \<or> c = CHR ''_'')"

definition not_slash :: "char \<Rightarrow> bool" where
  "not_slash c = (c \<noteq> CHR ''/'')"

definition digit_val :: "char \<Rightarrow> int" where
  "digit_val c = of_char c - 48"

text \<open>\<^verbatim>\<open>parseInt\<close> on a string of decimal digits (the only use in the source).\<close>

definition parseInt :: "string \<Rightarrow> int" where
  "parseInt ds = foldl (\<lambda>n c. 10 * n + digit_val c) 0 ds"

definition starts_with :: "string \<Rightarrow> string \<Rightarrow> bool" where
  "starts_with p s = (take (length p) s = p)"

text \<open>\<^verbatim>\<open>s.includes(p)\<close>\<close>

fun str_includes :: "string \<Rightarrow> string \<Rightarrow> bool" where
  "str_includes p [] = (p = [])"
| "str_includes p (c # cs) = (starts_with p (c # cs) \<or> str_includes p cs)"

text \<open>\<^verbatim>\<open>s.toLowerCase()\<close> on ASCII letters.\<close>

definition lower_char :: "char \<Rightarrow> char" where
  "lower_char c = (if c \<in> set ''ABCDEFGHIJKLMNOPQRSTUVWXYZ''
                   then char_of (of_char c + (32::nat)) else c)"

definition toLowerCase :: "string \<Rightarrow> string" where
  "toLowerCase s = map lower_char s"

text \<open>\<^verbatim>\<open>s.split('/').pop()\<close> and \<^verbatim>\<open>s.split('.')[0]\<close>\<close>

definition split_slash_pop :: "string \<Rightarrow> string" where
  "split_slash_pop s = rev (takeWhile not_slash (rev s))"

definition split_dot_first :: "string \<Rightarrow> string" where
  "split_dot_first s = takeWhile (\<lambda>c. c \<noteq> CHR ''.'') s"

text \<open>
  A regular expression is modelled by the function that matches it at the start of a
  string and returns the captured groups and the text after the match. \<open>search\<close> is the
  engine's scan: it tries every start position from the left and stops at the first
  match, returning the text before the match as well.
\<close>

fun search :: "(string \<Rightarrow> ('a \<times> string) option) \<Rightarrow> string \<Rightarrow> (string \<times> 'a \<times> string) option" where
  "search m [] = (case m [] of None \<Rightarrow> None | Some (a, r) \<Rightarrow> Some ([], a, r))"
| "search m (c # cs) =
     (case m (c # cs) of
        Some (a, r) \<Rightarrow> Some ([], a, r)
      | None \<Rightarrow> (case search m cs of None \<Rightarrow> None | Some (p, a, r) \<Rightarrow> Some (c # p, a, r)))"

text \<open>\<^verbatim>\<open>s.match(re)\<close> (the captures), \<^verbatim>\<open>re.test(s)\<close> and \<^verbatim>\<open>s.replace(re, '')\<close>\<close>

definition js_match :: "(string \<Rightarrow> ('a \<times> string) option) \<Rightarrow> string \<Rightarrow> 'a option" where
  "js_match m s = (case search m s of None \<Rightarrow> None | Some (p, a, r) \<Rightarrow> Some a)"

definition js_test :: "(string \<Rightarrow> ('a \<times> string) option) \<Rightarrow> string \<Rightarrow> bool" where
  "js_test m s = (case search m s of None \<Rightarrow> False | Some x \<Rightarrow> True)"

definition js_remove :: "(string \<Rightarrow> ('a \<times> string) option) \<Rightarrow> string \<Rightarrow> string" where
  "js_remove m s = (case search m s of None \<Rightarrow> s | Some (p, a, r) \<Rightarrow> p @ r)"

text \<open>
  \<^verbatim>\<open>/(\d+)_of_(\d+)/\<close>: the first group is greedy; giving digits back cannot help, since
  the character after a shorter group is a digit and not the underscore.
\<close>

definition re_seq :: "string \<Rightarrow> ((string \<times> string) \<times> string) option" where
  "re_seq s =
     (let a = takeWhile is_digit s; r = dropWhile is_digit s;
          b = takeWhile is_digit (drop 4 r)
      in if a \<noteq> [] \<and> starts_with ''_of_'' r \<and> b \<noteq> []
         then Some ((a, b), dropWhile is_digit (drop 4 r)) else None)"

text \<open>\<^verbatim>\<open>/Slice_(\d+)/\<close>\<close>

definition re_slice :: "string \<Rightarrow> (string \<times> string) option" where
  "re_slice s =
     (let b = takeWhile is_digit (drop 6 s)
      in if starts_with ''Slice_'' s \<and> b \<noteq> []
         then Some (b, dropWhile is_digit (drop 6 s)) else None)"

text \<open>\<^verbatim>\<open>/(\d+)x(\d+)/\<close>\<close>

definition re_dims :: "string \<Rightarrow> ((string \<times> string) \<times> string) option" where
  "re_dims s =
     (let a = takeWhile is_digit s; r = dropWhile is_digit s;
          b = takeWhile is_digit (drop 1 r)
      in if a \<noteq> [] \<and> starts_with ''x'' r \<and> b \<noteq> []
         then Some ((a, b), dropWhile is_digit (drop 1 r)) else None)"

text \<open>
  \<^verbatim>\<open>/\d+x\d+[^_-]*/\<close> and \<^verbatim>\<open>/\d+x\d+[^/]*/\<close>: a size token and everything after it up to the
  next stop character.
\<close>

definition re_size_token :: "(char \<Rightarrow> bool) \<Rightarrow> string \<Rightarrow> (unit \<times> string) option" where
  "re_size_token stop s =
     (case re_dims s of
        None \<Rightarrow> None
      | Some (wh, r) \<Rightarrow> Some ((), dropWhile (\<lambda>c. \<not> stop c) r))"

text \<open>\<^verbatim>\<open>/_new|_orig|_retry|_thumb/\<close>\<close>

definition re_version :: "string \<Rightarrow> (unit \<times> string) option" where
  "re_version s =
     (if starts_with ''_new'' s then Some ((), drop 4 s)
      else if starts_with ''_orig'' s then Some ((), drop 5 s)
      else if starts_with ''_retry'' s then Some ((), drop 6 s)
      else if starts_with ''_thumb'' s then Some ((), drop 6 s)
      else None)"

text \<open>\<^verbatim>\<open>/[-_]+$/\<close>: the run of separators must reach the end of the string.\<close>

definition re_trailing_seps :: "string \<Rightarrow> (unit \<times> string) option" where
  "re_trailing_seps s = (if s \<noteq> [] \<and> list_all is_sep s then Some ((), []) else None)"

text \<open>
  \<^verbatim>\<open>/[/-](\d+)[^/]*\.[^/]*$/\<close>: after the digits the rest of the string must hold a dot and no
  slash; a shorter digit group leaves the same requirement on the rest.
\<close>

definition re_numbered :: "string \<Rightarrow> (string \<times> string) option" where
  "re_numbered s =
     (case s of
        [] \<Rightarrow> None
      | c # t \<Rightarrow>
          (let a = takeWhile is_digit t; r = dropWhile is_digit t
           in if (c = CHR ''/'' \<or> c = CHR ''-'') \<and> a \<noteq> [] \<and> list_all not_slash r \<and> CHR ''.'' \<in> set r
              then Some (a, []) else None))"

text \<open>\<^verbatim>\<open>/[a-f0-9-]{16,}/\<close>\<close>

definition re_hash :: "string \<Rightarrow> (string \<times> string) option" where
  "re_hash s =
     (let h = takeWhile is_hexdash s
      in if 16 \<le> length h then Some (h, dropWhile is_hexdash s) else None)"

text \<open>\<^verbatim>\<open>/\/\d{4}\/\d{2}\//\<close>\<close>

definition re_date_path :: "string \<Rightarrow> (unit \<times> string) option" where
  "re_date_path s =
     (if starts_with ''/'' s \<and> length (take 4 (drop 1 s)) = 4 \<and> list_all is_digit (take 4 (drop 1 s))
         \<and> starts_with ''/'' (drop 5 s)
         \<and> length (take 2 (drop 6 s)) = 2 \<and> list_all is_digit (take 2 (drop 6 s))
         \<and> starts_with ''/'' (drop 8 s)
      then Some ((), drop 9 s) else None)"

text \<open>
  \<^verbatim>\<open>Array.prototype.sort(cmp)\<close> is stable; it is modelled by stable insertion sort. For a
  comparator that is a total preorder every stable sort gives this result.
\<close>

fun insert_by :: "('a \<Rightarrow> 'a \<Rightarrow> int) \<Rightarrow> 'a \<Rightarrow> 'a list \<Rightarrow> 'a list" where
  "insert_by cmp x [] = [x]"
| "insert_by cmp x (y # ys) = (if cmp x y \<le> 0 then x # y # ys else y # insert_by cmp x ys)"

fun sort_by :: "('a \<Rightarrow> 'a \<Rightarrow> int) \<Rightarrow> 'a list \<Rightarrow> 'a list" where
  "sort_by cmp [] = []"
| "sort_by cmp (x # xs) = insert_by cmp x (sort_by cmp xs)"

text \<open>\<^verbatim>\<open>[...new Set(xs)]\<close>: the first occurrence of every element, in order.\<close>

fun uniq :: "'a list \<Rightarrow> 'a list" where
  "uniq [] = []"
| "uniq (x # xs) = x # filter (\<lambda>y. y \<noteq> x) (uniq xs)"

section \<open>Pattern analyzer (\<^verbatim>\<open>pattern-analyzer.js\<close>)\<close>

datatype platform = iPhone | iPad | AppleTV

datatype strategy =
  respect_sequence | respect_slices | deduplicate_aggressive | quality_filter
  | platform_optimize | none

datatype action =
  keep_complete_sequence | keep_complete_slices | aggressive_deduplication
  | prefer_high_quality | apply_platform_limits | keep_all

text \<open>\<^verbatim>\<open>extractDimensions(url).total\<close>\<close>

definition extractDimensions :: "url \<Rightarrow> int" where
  "extractDimensions u =
     (case js_match re_dims u of None \<Rightarrow> 0 | Some (w, h) \<Rightarrow> parseInt w * parseInt h)"

definition extractBaseName :: "url \<Rightarrow> string" where
  "extractBaseName u =
     js_remove re_trailing_seps
       (js_remove re_version
          (js_remove (re_size_token is_sep) (split_dot_first (split_slash_pop u))))"

record sequential_pattern =
  seq_found :: bool
  seq_expectedCount :: int
  seq_actualCount :: int
  seq_isComplete :: bool

text \<open>
  \<^verbatim>\<open>sequenceInfo\<close>: a Map from the total to the Set of sequence numbers seen with it, both
  in insertion order.
\<close>

fun seq_add :: "int \<Rightarrow> int \<Rightarrow> (int \<times> int list) list \<Rightarrow> (int \<times> int list) list" where
  "seq_add tot n [] = [(tot, [n])]"
| "seq_add tot n ((t, ns) # rest) =
     (if t = tot then (t, if n \<in> set ns then ns else ns @ [n]) # rest
      else (t, ns) # seq_add tot n rest)"

definition sequenceInfo :: "url list \<Rightarrow> (int \<times> int list) list" where
  "sequenceInfo urls =
     foldl (\<lambda>info u. case js_match re_seq u of
                        None \<Rightarrow> info
                      | Some (a, b) \<Rightarrow> seq_add (parseInt b) (parseInt a) info) [] urls"

text \<open>
  \<open>completeness = foundNumbers.size / expectedCount\<close> and \<open>isComplete = completeness > 0.8\<close>.
  A total of zero (\<^verbatim>\<open>1_of_0\<close>) makes the quotient \<open>Infinity\<close>, which is greater than 0.8.
\<close>

definition detectSequentialPattern :: "url list \<Rightarrow> sequential_pattern" where
  "detectSequentialPattern urls =
     (let sequentialUrls = filter (js_test re_seq) urls;
          info = sequenceInfo sequentialUrls
      in case sort_by (\<lambda>a b. int (length (snd b)) - int (length (snd a))) info of
           [] \<Rightarrow> \<lparr>seq_found = sequentialUrls \<noteq> [], seq_expectedCount = 0,
                  seq_actualCount = int (length sequentialUrls), seq_isComplete = False\<rparr>
         | (tot, foundNumbers) # rest \<Rightarrow>
               \<lparr>seq_found = sequentialUrls \<noteq> [], seq_expectedCount = tot,
                seq_actualCount = int (length sequentialUrls),
                seq_isComplete =
                  (if tot = 0 then True
                   else (of_nat (length foundNumbers) / of_int tot :: rat) > 8 / 10)\<rparr>)"

record slice_pattern =
  slice_found :: bool
  slice_expectedCount :: int
  slice_actualCount :: int
  slice_isComplete :: bool

definition detectSlicePattern :: "url list \<Rightarrow> slice_pattern" where
  "detectSlicePattern urls =
     (let sliceUrls = filter (js_test re_slice) urls;
          sliceNumbers = remdups (concat (map (\<lambda>u. case js_match re_slice u of
                                                      None \<Rightarrow> [] | Some d \<Rightarrow> [parseInt d]) sliceUrls));
          maxSlice = (if sliceNumbers = [] then - 1 else fold max sliceNumbers (hd sliceNumbers));
          expectedCount = (if 0 \<le> maxSlice then maxSlice + 1 else 0)
      in \<lparr>slice_found = sliceUrls \<noteq> [], slice_expectedCount = expectedCount,
          slice_actualCount = int (length sliceUrls),
          slice_isComplete = (int (length sliceNumbers) = expectedCount)\<rparr>)"

record quality_tiers =
  tiers_found :: bool
  tiers_uniqueQualities :: int
  tiers_redundancy :: rat

definition detectQualityTiers :: "url list \<Rightarrow> quality_tiers" where
  "detectQualityTiers urls =
     (let totals = filter (\<lambda>t. 0 < t) (map extractDimensions urls);
          uniqueQualities = int (length (remdups totals));
          hasMultipleQualities = 1 < uniqueQualities;
          maxCount = fold max (map (\<lambda>t. int (count_list totals t)) totals) 0
      in \<lparr>tiers_found = hasMultipleQualities, tiers_uniqueQualities = uniqueQualities,
          tiers_redundancy =
            (if hasMultipleQualities
             then (of_nat (length urls) - of_int maxCount) / of_nat (length urls) else 0)\<rparr>)"

datatype overall_quality = high | low | mixed

definition assessQuality :: "url list \<Rightarrow> overall_quality" where
  "assessQuality urls =
     (let highQualityCount = length (filter (\<lambda>u. 500000 < extractDimensions u) urls);
          lowQualityCount =
            length (filter (\<lambda>u. \<not> 500000 < extractDimensions u \<and> 0 < extractDimensions u
                                 \<and> extractDimensions u < 100000) urls)
      in if lowQualityCount < highQualityCount then high
         else if highQualityCount < lowQualityCount then low else mixed)"

record redundancy =
  redundancyRatio :: rat
  uniqueBaseNames :: int
  hasSignificantRedundancy :: bool

definition detectRedundancy :: "url list \<Rightarrow> redundancy" where
  "detectRedundancy urls =
     (let n = int (length (remdups (map extractBaseName urls)));
          ratio = (of_nat (length urls) - of_int n) / of_nat (length urls)
      in \<lparr>redundancyRatio = ratio, uniqueBaseNames = n,
          hasSignificantRedundancy = (3 / 10 < ratio)\<rparr>)"

record analysis =
  totalCount :: int
  sequential :: sequential_pattern
  slice :: slice_pattern
  quality_tiers :: quality_tiers
  quality :: overall_quality
  redundancy :: redundancy
  platform :: platform

record platform_limits =
  reasonable :: int
  optimal :: int

definition baseLimits :: "platform \<Rightarrow> platform_limits" where
  "baseLimits p =
     (case p of
        iPhone \<Rightarrow> \<lparr>reasonable = 8, optimal = 6\<rparr>
      | iPad \<Rightarrow> \<lparr>reasonable = 10, optimal = 8\<rparr>
      | AppleTV \<Rightarrow> \<lparr>reasonable = 6, optimal = 4\<rparr>)"

definition getPlatformLimits :: "platform \<Rightarrow> analysis \<Rightarrow> platform_limits" where
  "getPlatformLimits p a =
     (let limits = baseLimits p; sequenceCount = seq_expectedCount (sequential a)
      in if seq_found (sequential a) \<and> 0 < sequenceCount \<and> sequenceCount \<le> reasonable limits
         then \<lparr>reasonable = sequenceCount, optimal = sequenceCount\<rparr> else limits)"

record decision =
  strategy :: strategy
  confidence :: rat
  action :: action
  maxScreenshots :: int

text \<open>
  The rules are tried in the source's order. The deduplication target is the same on
  doubles (the product with 0.8 is exact when it is an integer and at least 0.2 away from
  every integer otherwise). The quality-filter target is written with exact arithmetic; on
  doubles the rounding of \<open>1 - redundancy\<close> can raise the ceiling by one, so nothing below is
  stated about the value of that target beyond the examples where the arithmetic is exact.
\<close>

definition determineFilteringStrategy :: "analysis \<Rightarrow> decision" where
  "determineFilteringStrategy a =
     (if seq_found (sequential a) \<and> seq_isComplete (sequential a) then
        \<lparr>strategy = respect_sequence, confidence = 9 / 10, action = keep_complete_sequence,
         maxScreenshots = seq_expectedCount (sequential a)\<rparr>
      else if slice_found (slice a) \<and> slice_isComplete (slice a) then
        \<lparr>strategy = respect_slices, confidence = 9 / 10, action = keep_complete_slices,
         maxScreenshots = slice_expectedCount (slice a)\<rparr>
      else if hasSignificantRedundancy (redundancy a) then
        \<lparr>strategy = deduplicate_aggressive, confidence = 8 / 10, action = aggressive_deduplication,
         maxScreenshots = max 3 \<lceil>of_int (uniqueBaseNames (redundancy a)) * (8 / 10 :: rat)\<rceil>\<rparr>
      else if tiers_found (quality_tiers a) \<and> quality a = mixed then
        \<lparr>strategy = quality_filter, confidence = 7 / 10, action = prefer_high_quality,
         maxScreenshots =
           max 4 \<lceil>of_int (totalCount a) * (1 - tiers_redundancy (quality_tiers a))\<rceil>\<rparr>
      else if reasonable (getPlatformLimits (platform a) a) < totalCount a then
        \<lparr>strategy = platform_optimize, confidence = 6 / 10, action = apply_platform_limits,
         maxScreenshots = optimal (getPlatformLimits (platform a) a)\<rparr>
      else
        \<lparr>strategy = none, confidence = 1, action = keep_all, maxScreenshots = totalCount a\<rparr>)"

text \<open>
  \<^verbatim>\<open>analyzeCollection\<close>: the decision, together with the analysis it was taken from (absent
  for an empty collection).
\<close>

definition analyze :: "url list \<Rightarrow> platform \<Rightarrow> analysis" where
  "analyze screenshots p =
     \<lparr>totalCount = int (length screenshots),
      sequential = detectSequentialPattern screenshots,
      slice = detectSlicePattern screenshots,
      quality_tiers = detectQualityTiers screenshots,
      quality = assessQuality screenshots,
      redundancy = detectRedundancy screenshots,
      platform = p\<rparr>"

definition analyzeCollection :: "url list \<Rightarrow> platform \<Rightarrow> decision \<times> analysis option" where
  "analyzeCollection screenshots p =
     (if screenshots = [] then
        (\<lparr>strategy = none, confidence = 1, action = keep_all, maxScreenshots = 0\<rparr>, None)
      else (determineFilteringStrategy (analyze screenshots p), Some (analyze screenshots p)))"

section \<open>Content deduplicator (\<^verbatim>\<open>content-deduplicator.js\<close>)\<close>

datatype naming = Sequential | Slice | Hash | Numbered | Themed | Unknown

text \<open>
  The \<open>patterns\<close> object of \<^verbatim>\<open>analyzeUrlPatterns\<close>: one counter per naming scheme (a scheme is
  \<open>found\<close> exactly when its counter is positive; \<open>themed\<close> is never counted).
\<close>

record url_patterns =
  count_sequential :: int
  count_slice :: int
  count_hash :: int
  count_numbered :: int
  count_themed :: int
  expectedUniqueCount :: int

record url_analysis =
  totalUrls :: int
  patterns :: url_patterns
  dominantPattern :: naming
  expectedUnique :: int

definition scan_url :: "url_patterns \<Rightarrow> url \<Rightarrow> url_patterns" where
  "scan_url a u =
     (if u = [] then a
      else
        let sequentialMatch = js_match re_seq u;
            sliceMatch = js_match re_slice u;
            numberedMatch = js_match re_numbered u;
            hashMatch = js_match re_hash u;
            a1 = (case sequentialMatch of
                    None \<Rightarrow> a
                  | Some (k, n) \<Rightarrow>
                      a\<lparr>count_sequential := count_sequential a + 1,
                        expectedUniqueCount := max (expectedUniqueCount a) (parseInt n)\<rparr>);
            a2 = (case sliceMatch of
                    None \<Rightarrow> a1
                  | Some k \<Rightarrow>
                      a1\<lparr>count_slice := count_slice a1 + 1,
                         expectedUniqueCount := max (expectedUniqueCount a1) (parseInt k + 1)\<rparr>);
            a3 = (case numberedMatch of
                    None \<Rightarrow> a2
                  | Some k \<Rightarrow>
                      if sequentialMatch = None \<and> sliceMatch = None
                      then a2\<lparr>count_numbered := count_numbered a2 + 1,
                              expectedUniqueCount := max (expectedUniqueCount a2) (parseInt k)\<rparr>
                      else a2)
        in (case hashMatch of
              None \<Rightarrow> a3
            | Some h \<Rightarrow> a3\<lparr>count_hash := count_hash a3 + 1\<rparr>))"

text \<open>
  The entries of \<open>patterns\<close> in the order the object literal lists them, those found sorted
  by count, largest first.
\<close>

definition patternCounts :: "url_patterns \<Rightarrow> (naming \<times> int) list" where
  "patternCounts a =
     sort_by (\<lambda>x y. snd y - snd x)
       (filter (\<lambda>e. 0 < snd e)
          [(Sequential, count_sequential a), (Slice, count_slice a), (Hash, count_hash a),
           (Numbered, count_numbered a), (Themed, count_themed a)])"

definition analyzeUrlPatterns :: "url list \<Rightarrow> url_analysis" where
  "analyzeUrlPatterns urls =
     (let a = foldl scan_url
                \<lparr>count_sequential = 0, count_slice = 0, count_hash = 0, count_numbered = 0,
                 count_themed = 0, expectedUniqueCount = 0\<rparr> urls;
          n = int (length urls)
      in \<lparr>totalUrls = n, patterns = a,
          dominantPattern = (case patternCounts a of [] \<Rightarrow> Unknown | e # rest \<Rightarrow> fst e),
          expectedUnique =
            (if expectedUniqueCount a = 0
             then (if 0 < count_hash a then \<lceil>of_int n / (2 :: rat)\<rceil>
                   else min 6 \<lceil>of_int n / (3 :: rat)\<rceil>)
             else expectedUniqueCount a)\<rparr>)"

text \<open>
  \<^verbatim>\<open>fallbackId\<close>. The argument \<open>r\<close> is the string that
  \<^verbatim>\<open>Math.random().toString(36).substr(2, 8)\<close> would give at this call; \<^verbatim>\<open>||\<close> takes its right
  operand only when the left one is the empty string.
\<close>

definition cleanName :: "url \<Rightarrow> string" where
  "cleanName u =
     (let filename = split_dot_first (split_slash_pop u)
      in js_remove re_trailing_seps
           (js_remove re_version (js_remove (re_size_token is_sep) filename)))"

definition fallbackId :: "string \<Rightarrow> url \<Rightarrow> string" where
  "fallbackId r u =
     (let fromName = ''fallback_'' @ cleanName u
      in if fromName \<noteq> [] then fromName else ''fallback_'' @ r)"

definition extractContentId :: "string \<Rightarrow> url \<Rightarrow> url_analysis \<Rightarrow> string" where
  "extractContentId r u a =
     (case dominantPattern a of
        Sequential \<Rightarrow>
          (case js_match re_seq u of Some (k, n) \<Rightarrow> ''seq_'' @ k | None \<Rightarrow> fallbackId r u)
      | Slice \<Rightarrow>
          (case js_match re_slice u of Some k \<Rightarrow> ''slice_'' @ k | None \<Rightarrow> fallbackId r u)
      | Numbered \<Rightarrow>
          (case js_match re_numbered u of Some k \<Rightarrow> ''num_'' @ k | None \<Rightarrow> fallbackId r u)
      | Hash \<Rightarrow>
          (case js_match re_hash u of Some h \<Rightarrow> ''hash_'' @ take 16 h | None \<Rightarrow> fallbackId r u)
      | Themed \<Rightarrow> fallbackId r u
      | Unknown \<Rightarrow> fallbackId r u)"

text \<open>
  The Map of \<^verbatim>\<open>groupByContent\<close>, in insertion order; a group is never empty, so it is kept
  as its first URL and the URLs pushed after it.
\<close>

fun group_add :: "string \<Rightarrow> url \<Rightarrow> (string \<times> url \<times> url list) list \<Rightarrow> (string \<times> url \<times> url list) list" where
  "group_add k u [] = [(k, u, [])]"
| "group_add k u ((k', v, vs) # rest) =
     (if k' = k then (k', v, vs @ [u]) # rest else (k', v, vs) # group_add k u rest)"

text \<open>The entries of such a Map as pairs of a key and one URL of its group.\<close>

definition group_members :: "(string \<times> url \<times> url list) list \<Rightarrow> (string \<times> url) list" where
  "group_members gs = concat (map (\<lambda>(k, v, vs). map (Pair k) (v # vs)) gs)"

text \<open>\<open>rnd i\<close> is the random string available while the URL at index \<open>i\<close> is processed.\<close>

definition groupByContent :: "(nat \<Rightarrow> string) \<Rightarrow> url list \<Rightarrow> url_analysis \<Rightarrow> (string \<times> url \<times> url list) list" where
  "groupByContent rnd urls a =
     foldl (\<lambda>groups (i, u). if u = [] then groups
                             else group_add (extractContentId (rnd i) u a) u groups)
       [] (enumerate 0 urls)"

definition count_underscores :: "string \<Rightarrow> int" where
  "count_underscores s = int (length (filter (\<lambda>c. c = CHR ''_'') s))"

text \<open>The comparator of \<^verbatim>\<open>selectBestUrl\<close>.\<close>

definition compareUrls :: "platform \<Rightarrow> url \<Rightarrow> url \<Rightarrow> int" where
  "compareUrls p a b =
     (let aNew = str_includes ''_new'' a; bNew = str_includes ''_new'' b;
          aOld = (str_includes ''_orig'' a \<or> str_includes ''_retry'' a);
          bOld = (str_includes ''_orig'' b \<or> str_includes ''_retry'' b);
          aDims = extractDimensions a; bDims = extractDimensions b;
          aThumb = (str_includes ''300x0w'' a \<or> str_includes ''thumb'' a);
          bThumb = (str_includes ''300x0w'' b \<or> str_includes ''thumb'' b)
      in if aNew \<and> \<not> bNew then - 1
         else if \<not> aNew \<and> bNew then 1
         else if aOld \<and> \<not> bOld then 1
         else if \<not> aOld \<and> bOld then - 1
         else if aDims \<noteq> bDims then bDims - aDims
         else if aThumb \<and> \<not> bThumb then 1
         else if \<not> aThumb \<and> bThumb then - 1
         else if p = iPad then count_underscores a - count_underscores b
         else int (length a) - int (length b))"

definition selectBestUrl :: "url \<Rightarrow> url list \<Rightarrow> platform \<Rightarrow> url" where
  "selectBestUrl u us p = (case sort_by (compareUrls p) (u # us) of [] \<Rightarrow> u | x # rest \<Rightarrow> x)"

definition extractSequenceNumber :: "url \<Rightarrow> int option" where
  "extractSequenceNumber u =
     (case js_match re_seq u of
        Some (k, n) \<Rightarrow> Some (parseInt k)
      | None \<Rightarrow>
          (case js_match re_slice u of
             Some k \<Rightarrow> Some (parseInt k)
           | None \<Rightarrow>
               (case js_match re_numbered u of
                  Some k \<Rightarrow> Some (parseInt k)
                | None \<Rightarrow> None)))"

text \<open>
  \<^verbatim>\<open>sortRepresentatives\<close>; \<open>lc\<close> is \<^verbatim>\<open>String.prototype.localeCompare\<close> under the process's
  locale. The comparator is not a total preorder when only some URLs carry a number; the
  order of the result is then the engine's, and only the members and the length of the
  result are stated below.
\<close>

definition sortRepresentatives :: "(string \<Rightarrow> string \<Rightarrow> int) \<Rightarrow> url list \<Rightarrow> url list" where
  "sortRepresentatives lc urls =
     sort_by (\<lambda>a b. case (extractSequenceNumber a, extractSequenceNumber b) of
                       (Some x, Some y) \<Rightarrow> x - y
                     | _ \<Rightarrow> lc a b) urls"

definition selectBestRepresentatives ::
    "(string \<Rightarrow> string \<Rightarrow> int) \<Rightarrow> (string \<times> url \<times> url list) list \<Rightarrow> platform \<Rightarrow> url list" where
  "selectBestRepresentatives lc groups p =
     sortRepresentatives lc
       (map (\<lambda>(k, u, us). if us = [] then u else selectBestUrl u us p) groups)"

definition deduplicate :: "(nat \<Rightarrow> string) \<Rightarrow> (string \<Rightarrow> string \<Rightarrow> int) \<Rightarrow> url list \<Rightarrow> platform \<Rightarrow> url list" where
  "deduplicate rnd lc screenshots p =
     (if screenshots = [] then []
      else selectBestRepresentatives lc
             (groupByContent rnd screenshots (analyzeUrlPatterns screenshots)) p)"

text \<open>
  The content identifiers of an input: those of its non-empty URLs. \<open>content_id\<close> is the
  identifier when the random string is empty.
\<close>

definition content_id :: "url_analysis \<Rightarrow> url \<Rightarrow> string" where
  "content_id a u = extractContentId [] u a"

definition contentIds :: "(nat \<Rightarrow> string) \<Rightarrow> url list \<Rightarrow> string list" where
  "contentIds rnd urls =
     map (\<lambda>(i, u). extractContentId (rnd i) u (analyzeUrlPatterns urls))
       (filter (\<lambda>(i, u). u \<noteq> []) (enumerate 0 urls))"

section \<open>Screenshot validator (\<^verbatim>\<open>screenshot-validator.js\<close>)\<close>

text \<open>
  The app record: \<open>None\<close> is a missing (\<^verbatim>\<open>undefined\<close>) property. \<open>app_id\<close> is
  \<^verbatim>\<open>appData.id.toString()\<close>; the two underscore properties are the annotations of the
  fallback result.
\<close>

record app_data =
  app_id :: "string option"
  screenshots :: "url list option"
  ipadScreenshots :: "url list option"
  appletvScreenshots :: "url list option"
  screenshotExtractionWarning :: "string option"
  lastError :: "string option"

datatype issue =
  app_not_found | potentially_stale_urls | threads_mastodon_mismatch
  | excessive_iphone_duplicates | excessive_ipad_duplicates | no_screenshots
  | screenshots_not_accessible | some_screenshots_inaccessible | validation_failed

datatype recommendation =
  force_refresh | clear_cache | rerun_deduplication | force_web_scraping
  | refresh_screenshot_urls | manual_review | app_removed

record validation =
  isValid :: bool
  val_confidence :: rat
  issues :: "issue list"
  recommendations :: "recommendation list"

text \<open>
  The validator's state: the cache (key to timestamp and result) and the log of the HEAD
  requests sent so far. The network is a function \<open>net\<close>: \<open>net k url\<close> tells whether the
  request number \<open>k\<close>, sent to \<open>url\<close>, is answered with status 200 (any other status, an
  error and a timeout are all \<open>False\<close>).
\<close>

record validator =
  validationCache :: "string \<rightharpoonup> (int \<times> validation)"
  head_requests :: "url list"

type_synonym network = "nat \<Rightarrow> url \<Rightarrow> bool"

definition maxCacheAge :: int where
  "maxCacheAge = 60000"

definition new_validator :: validator where
  "new_validator = \<lparr>validationCache = Map.empty, head_requests = []\<rparr>"

definition axios_head :: "network \<Rightarrow> url \<Rightarrow> validator \<Rightarrow> bool \<times> validator" where
  "axios_head net u v =
     (net (length (head_requests v)) u, v\<lparr>head_requests := head_requests v @ [u]\<rparr>)"

definition checkAppPageExists :: "network \<Rightarrow> string \<Rightarrow> string \<Rightarrow> validator \<Rightarrow> bool \<times> validator" where
  "checkAppPageExists net appId country v =
     axios_head net (''https://apps.apple.com/'' @ country @ ''/app/id'' @ appId) v"

text \<open>\<^verbatim>\<open>x || []\<close>\<close>

definition or_empty :: "url list option \<Rightarrow> url list" where
  "or_empty x = (case x of None \<Rightarrow> [] | Some xs \<Rightarrow> xs)"

definition hasOldPattern :: "url \<Rightarrow> bool" where
  "hasOldPattern u =
     (u \<noteq> [] \<and> (str_includes ''_old'' u \<or> str_includes ''_archived'' u
                 \<or> str_includes ''_legacy'' u \<or> js_test re_date_path u))"

definition detectContentMismatches :: "app_data \<Rightarrow> url list \<Rightarrow> url list \<Rightarrow> issue list" where
  "detectContentMismatches appData shots ipad =
     (if (case app_id appData of None \<Rightarrow> False | Some i \<Rightarrow> i \<noteq> [] \<and> i = ''6446901002'')
         \<and> list_ex (\<lambda>u. list_ex (\<lambda>pat. u \<noteq> [] \<and> str_includes pat (toLowerCase u))
                             [''mastodon'', ''toot'', ''fediverse'']) (shots @ ipad)
      then [threads_mastodon_mismatch] else [])"

definition extractVisualIdentifier :: "url \<Rightarrow> string" where
  "extractVisualIdentifier u =
     (let identifier = js_remove re_version (js_remove (re_size_token (\<lambda>c. c = CHR ''/'')) u);
          filename = split_slash_pop identifier
      in if filename \<noteq> [] then split_dot_first filename else identifier)"

text \<open>\<^verbatim>\<open>_countVisualDuplicates\<close>: the accumulator is the Set \<open>seen\<close> and the counter.\<close>

definition countVisualDuplicates :: "url list \<Rightarrow> int" where
  "countVisualDuplicates urls =
     snd (foldl (\<lambda>(seen, duplicates) u.
                   if u = [] then (seen, duplicates)
                   else if extractVisualIdentifier u \<in> set seen then (seen, duplicates + 1)
                   else (extractVisualIdentifier u # seen, duplicates))
            ([], 0) urls)"

text \<open>
  \<open>duplicates > length * 0.4\<close>: the product is exact on doubles when it is an integer and at
  least 0.2 away from every integer otherwise, so the rational comparison decides the same.
\<close>

definition detectExcessiveDuplicates :: "url list \<Rightarrow> url list \<Rightarrow> issue list" where
  "detectExcessiveDuplicates shots ipad =
     (if (of_int (countVisualDuplicates shots) :: rat) > of_nat (length shots) * (4 / 10)
      then [excessive_iphone_duplicates] else [])
     @ (if (of_int (countVisualDuplicates ipad) :: rat) > of_nat (length ipad) * (4 / 10)
        then [excessive_ipad_duplicates] else [])"

definition analyzeScreenshotPatterns :: "app_data \<Rightarrow> issue list \<times> rat" where
  "analyzeScreenshotPatterns appData =
     (let shots = or_empty (screenshots appData);
          ipad = or_empty (ipadScreenshots appData);
          hasOldPatterns = list_ex hasOldPattern (shots @ ipad);
          issues1 = (if hasOldPatterns then [potentially_stale_urls] else []);
          confidence1 = (if hasOldPatterns then 1 * (5 / 10) else 1);
          contentMismatches = detectContentMismatches appData shots ipad;
          issues2 = issues1 @ contentMismatches;
          confidence2 = (if contentMismatches \<noteq> [] then confidence1 * (2 / 10) else confidence1);
          duplicateIssues = detectExcessiveDuplicates shots ipad;
          issues3 = issues2 @ duplicateIssues;
          confidence3 = (if duplicateIssues \<noteq> [] then confidence2 * (6 / 10) else confidence2)
      in (issues3, confidence3))"

text \<open>The loop over the sample: one HEAD request per URL, counting the answers with status 200.\<close>

fun head_sample :: "network \<Rightarrow> url list \<Rightarrow> validator \<Rightarrow> nat \<times> validator" where
  "head_sample net [] v = (0, v)"
| "head_sample net (u # us) v =
     (case axios_head net u v of
        (ok, v1) \<Rightarrow> (case head_sample net us v1 of
                        (n, v2) \<Rightarrow> ((if ok then 1 else 0) + n, v2)))"

definition validateScreenshotUrls :: "network \<Rightarrow> app_data \<Rightarrow> validator \<Rightarrow> (issue list \<times> rat) \<times> validator" where
  "validateScreenshotUrls net appData v =
     (let allUrls = or_empty (screenshots appData) @ or_empty (ipadScreenshots appData)
      in if allUrls = [] then (([no_screenshots], 3 / 10), v)
         else
           let sampleSize = min 3 (length allUrls);
               sampleUrls = take sampleSize allUrls
           in (case head_sample net sampleUrls v of
                 (accessibleCount, v1) \<Rightarrow>
                   let accessibilityRatio = (of_nat accessibleCount / of_nat sampleSize :: rat)
                   in if accessibilityRatio < 5 / 10
                      then (([screenshots_not_accessible], 1 * (3 / 10)), v1)
                      else if accessibilityRatio < 8 / 10
                      then (([some_screenshots_inaccessible], 1 * (7 / 10)), v1)
                      else (([], 1), v1)))"

definition generateRecommendations :: "issue list \<Rightarrow> rat \<Rightarrow> recommendation list" where
  "generateRecommendations iss conf =
     (let r1 = (if conf < 3 / 10 then [force_refresh]
                else if conf < 7 / 10 then [clear_cache] else []);
          r2 = r1 @ (if excessive_iphone_duplicates \<in> set iss \<or> excessive_ipad_duplicates \<in> set iss
                     then [rerun_deduplication] else []);
          r3 = r2 @ (if threads_mastodon_mismatch \<in> set iss then [force_web_scraping] else []);
          r4 = r3 @ (if screenshots_not_accessible \<in> set iss then [refresh_screenshot_urls] else [])
      in r4 @ (if r4 = [] \<and> iss \<noteq> [] then [manual_review] else []))"

definition performValidation ::
    "network \<Rightarrow> app_data \<Rightarrow> string \<Rightarrow> string \<Rightarrow> validator \<Rightarrow> validation \<times> validator" where
  "performValidation net appData appId country v =
     (case checkAppPageExists net appId country v of
        (pageExists, v1) \<Rightarrow>
          if \<not> pageExists
          then (\<lparr>isValid = False, val_confidence = 0, issues = [app_not_found],
                 recommendations = [app_removed]\<rparr>, v1)
          else
            (case analyzeScreenshotPatterns appData of
               (issues1, confidence1) \<Rightarrow>
                 (case validateScreenshotUrls net appData v1 of
                    ((issues2, confidence2), v2) \<Rightarrow>
                      let iss = issues1 @ issues2;
                          conf = 1 * confidence1 * confidence2
                      in (\<lparr>isValid = (7 / 10 < conf \<and> iss = []), val_confidence = conf,
                            issues = iss,
                            recommendations = generateRecommendations iss conf\<rparr>, v2))))"

text \<open>
  \<^verbatim>\<open>validateScreenshots\<close>. \<open>t_read\<close> is what \<^verbatim>\<open>Date.now()\<close> returns at the cache check and
  \<open>t_store\<close> what it returns when the fresh result is stored. With an app record that is an
  object holding arrays of strings nothing inside the \<^verbatim>\<open>try\<close> block throws (the HEAD
  requests catch their own failures), so the \<^verbatim>\<open>catch\<close> branch is not taken.
\<close>

definition validateScreenshots ::
    "network \<Rightarrow> int \<Rightarrow> int \<Rightarrow> app_data \<Rightarrow> string \<Rightarrow> string \<Rightarrow> validator \<Rightarrow> validation \<times> validator" where
  "validateScreenshots net t_read t_store appData appId country v =
     (let cacheKey = appId @ ''_'' @ country;
          fresh = (case performValidation net appData appId country v of
                     (res, v1) \<Rightarrow>
                       (res, v1\<lparr>validationCache := (validationCache v1)(cacheKey \<mapsto> (t_store, res))\<rparr>))
      in case validationCache v cacheKey of
           Some (timestamp, res) \<Rightarrow>
             if t_read - timestamp < maxCacheAge then (res, v) else fresh
         | None \<Rightarrow> fresh)"

definition clearCache :: "validator \<Rightarrow> validator" where
  "clearCache v = v\<lparr>validationCache := Map.empty\<rparr>"

text \<open>
  The two parts of \<^verbatim>\<open>validateScreenshots\<close>, taken apart: the cache check, which runs when the
  call is made, and the validation with the storing of its result, which ends after the
  last HEAD request has been answered. The call waits between the two, so another call may
  make its cache check before this one has stored its result.
\<close>

definition cache_lookup :: "validator \<Rightarrow> string \<Rightarrow> string \<Rightarrow> int \<Rightarrow> validation option" where
  "cache_lookup v appId country t_read =
     (case validationCache v (appId @ ''_'' @ country) of
        Some (timestamp, res) \<Rightarrow> if t_read - timestamp < maxCacheAge then Some res else None
      | None \<Rightarrow> None)"

definition validate_and_store ::
    "network \<Rightarrow> int \<Rightarrow> app_data \<Rightarrow> string \<Rightarrow> string \<Rightarrow> validator \<Rightarrow> validation \<times> validator" where
  "validate_and_store net t_store appData appId country v =
     (case performValidation net appData appId country v of
        (res, v1) \<Rightarrow>
          (res, v1\<lparr>validationCache :=
                      (validationCache v1)(appId @ ''_'' @ country \<mapsto> (t_store, res))\<rparr>))"

text \<open>
  \<^verbatim>\<open>validateScreenshots\<close> for any first argument: \<open>None\<close> is \<^verbatim>\<open>null\<close> or \<^verbatim>\<open>undefined\<close>. The cache
  check and the check of the app page do not read the record. When the page is not found
  the early result is stored as usual. Otherwise \<^verbatim>\<open>_analyzeScreenshotPatterns\<close> reads
  \<^verbatim>\<open>appData.screenshots\<close> and throws a \<^verbatim>\<open>TypeError\<close>; the \<^verbatim>\<open>catch\<close> block of
  \<^verbatim>\<open>validateScreenshots\<close> returns the \<open>validation_failed\<close> result, and nothing is stored.
\<close>

definition validateScreenshots_any ::
    "network \<Rightarrow> int \<Rightarrow> int \<Rightarrow> app_data option \<Rightarrow> string \<Rightarrow> string \<Rightarrow> validator
      \<Rightarrow> validation \<times> validator" where
  "validateScreenshots_any net t_read t_store appData appId country v =
     (case appData of
        Some a \<Rightarrow> validateScreenshots net t_read t_store a appId country v
      | None \<Rightarrow>
          (case cache_lookup v appId country t_read of
             Some res \<Rightarrow> (res, v)
           | None \<Rightarrow>
               (case checkAppPageExists net appId country v of
                  (pageExists, v1) \<Rightarrow>
                    if \<not> pageExists
                    then (\<lparr>isValid = False, val_confidence = 0, issues = [app_not_found],
                           recommendations = [app_removed]\<rparr>,
                          v1\<lparr>validationCache :=
                               (validationCache v1)
                                 (appId @ ''_'' @ country \<mapsto>
                                    (t_store,
                                     \<lparr>isValid = False, val_confidence = 0,
                                        issues = [app_not_found],
                                        recommendations = [app_removed]\<rparr>))\<rparr>)
                    else (\<lparr>isValid = False, val_confidence = 0, issues = [validation_failed],
                           recommendations = [force_refresh]\<rparr>, v1))))"

section \<open>Group selection of the page scraper (\<^verbatim>\<open>screenshot-fallback.js\<close>)\<close>

text \<open>
  \<^verbatim>\<open>([^\/]+)\.[^\/]+\<close> against a whole path segment: the first group is greedy, so it ends at the
  last dot that still leaves a non-empty rest.
\<close>

definition split_last_dot :: "string \<Rightarrow> (string \<times> string) option" where
  "split_last_dot seg =
     (case rev seg of
        [] \<Rightarrow> None
      | c # r \<Rightarrow>
          (let x = takeWhile (\<lambda>d. d \<noteq> CHR ''.'') r;
               y = drop 1 (dropWhile (\<lambda>d. d \<noteq> CHR ''.'') r)
           in if dropWhile (\<lambda>d. d \<noteq> CHR ''.'') r \<noteq> [] \<and> y \<noteq> []
              then Some (rev y, rev (c # x)) else None))"

text \<open>
  \<^verbatim>\<open>/\/([a-f0-9-]{36})\/([^\/]+)\.[^\/]+\/[^\/]+$/\<close>: a slash, a segment of exactly 36 hex or dash
  characters, a segment with a dot inside, and a non-empty last segment.
\<close>

definition re_base :: "string \<Rightarrow> ((string \<times> string) \<times> string) option" where
  "re_base s =
     (let uuid = take 36 (drop 1 s);
          t = drop 37 s;
          seg = takeWhile not_slash (drop 1 t);
          after = dropWhile not_slash (drop 1 t);
          final = drop 1 after
      in if starts_with ''/'' s \<and> length uuid = 36 \<and> list_all is_hexdash uuid
            \<and> starts_with ''/'' t \<and> starts_with ''/'' after
            \<and> final \<noteq> [] \<and> list_all not_slash final
         then (case split_last_dot seg of
                 None \<Rightarrow> None
               | Some (filename, ext) \<Rightarrow> Some ((uuid, filename), []))
         else None)"

text \<open>\<^verbatim>\<open>/_(new|orig|updated|v\d+)$/\<close>\<close>

definition re_version_suffix :: "string \<Rightarrow> (unit \<times> string) option" where
  "re_version_suffix s =
     (if s = ''_new'' \<or> s = ''_orig'' \<or> s = ''_updated''
         \<or> (starts_with ''_v'' s \<and> drop 2 s \<noteq> [] \<and> list_all is_digit (drop 2 s))
      then Some ((), []) else None)"

text \<open>
  \<^verbatim>\<open>groupScreenshotsByPattern\<close>: an object keyed by \<open>uuid/filename\<close>, in insertion order; a
  group is its first URL and the URLs pushed after it.
\<close>

definition groupScreenshotsByPattern :: "url list \<Rightarrow> (string \<times> url \<times> url list) list" where
  "groupScreenshotsByPattern urls =
     foldl (\<lambda>groups u. case js_match re_base u of
                          None \<Rightarrow> groups
                        | Some (uuid, filename) \<Rightarrow> group_add (uuid @ ''/'' @ filename) u groups)
       [] urls"

datatype device = iphone | ipad | appletv

record pattern_group =
  pg_pattern :: string
  pg_first :: url
  pg_rest :: "url list"
  pg_deviceType :: device
  pg_confidence :: int
  pg_count :: int

definition classify :: "string \<times> url \<times> url list \<Rightarrow> pattern_group" where
  "classify g =
     (case g of (pat, sampleUrl, rest) \<Rightarrow>
        let isIpad = (str_includes ''iPad'' sampleUrl \<or> str_includes ''Slice_'' sampleUrl
                      \<or> str_includes ''2048x2732'' sampleUrl \<or> str_includes ''APP_IPAD_PRO'' sampleUrl);
            isTv = (str_includes ''appletv'' sampleUrl \<or> str_includes ''AppleTV'' sampleUrl
                    \<or> str_includes ''1920x1080'' sampleUrl);
            isPhone = (str_includes ''1242x2688'' sampleUrl \<or> str_includes ''ImageGen'' sampleUrl);
            deviceType = (if isIpad then ipad else if isTv then appletv else iphone);
            c1 = (if isIpad
                  then 2 + (if str_includes ''APP_IPAD_PRO'' sampleUrl then 2 else 0)
                         + (if str_includes ''iPad13'' sampleUrl \<or> str_includes ''iPad12'' sampleUrl
                            then 2 else 0)
                  else if isTv then 2
                  else if isPhone then 2 else 0);
            c2 = c1 + (if str_includes ''_of_'' pat then 3 else 0);
            c3 = c2 + (if str_includes ''_new.'' pat then 1
                       else if str_includes ''_orig.'' pat then - 1 else 0);
            c4 = c3 + (if str_includes ''ImageGen'' pat then 2 else 0);
            c5 = c4 + (if rest = [] then - 1 else 0)
        in \<lparr>pg_pattern = pat, pg_first = sampleUrl, pg_rest = rest, pg_deviceType = deviceType,
            pg_confidence = c5, pg_count = int (length rest) + 1\<rparr>)"

text \<open>\<^verbatim>\<open>selectBestQualityUrl\<close>: a reduce that moves to a later URL only for more pixels.\<close>

definition selectBestQualityUrl :: "url \<Rightarrow> url list \<Rightarrow> url" where
  "selectBestQualityUrl u us =
     foldl (\<lambda>best current. if extractDimensions best < extractDimensions current
                            then current else best) u us"

text \<open>
  The loop over the sorted groups of one device: it stops once \<open>maxScreenshots\<close> groups are
  kept, asks confidence 1 of the first kept group and 2 of the later ones, and keeps one URL
  per group.
\<close>

fun keep_groups :: "int \<Rightarrow> int \<Rightarrow> pattern_group list \<Rightarrow> url list" where
  "keep_groups maxS totalScreenshots [] = []"
| "keep_groups maxS totalScreenshots (g # gs) =
     (if maxS \<le> totalScreenshots then []
      else if (if totalScreenshots = 0 then 1 else 2) \<le> pg_confidence g
      then selectBestQualityUrl (pg_first g) (pg_rest g) # keep_groups maxS (totalScreenshots + 1) gs
      else keep_groups maxS totalScreenshots gs)"

definition group_cap :: "device \<Rightarrow> int" where
  "group_cap d = (if d = iphone then 8 else 6)"

definition devicePatterns :: "device \<Rightarrow> (string \<times> url \<times> url list) list \<Rightarrow> pattern_group list" where
  "devicePatterns d groups =
     sort_by (\<lambda>a b. if pg_confidence b - pg_confidence a \<noteq> 0
                     then pg_confidence b - pg_confidence a else pg_count b - pg_count a)
       (filter (\<lambda>g. pg_deviceType g = d) (map classify groups))"

definition keptGroups :: "device \<Rightarrow> (string \<times> url \<times> url list) list \<Rightarrow> url list" where
  "keptGroups d groups = keep_groups (group_cap d) 0 (devicePatterns d groups)"

definition deduplicateSemanticDuplicates :: "url list \<Rightarrow> url list" where
  "deduplicateSemanticDuplicates shots =
     snd (foldl (\<lambda>(seenBasenames, result) u.
                   case js_match re_base u of
                     None \<Rightarrow> (seenBasenames, result @ [u])
                   | Some (uuid, filename) \<Rightarrow>
                       if js_remove re_version_suffix filename \<in> set seenBasenames
                       then (seenBasenames, result)
                       else (js_remove re_version_suffix filename # seenBasenames, result @ [u]))
            ([], []) shots)"

record device_groups =
  dg_iphone :: "url list"
  dg_ipad :: "url list"
  dg_appletv :: "url list"

definition selectPrimaryScreenshotGroups :: "(string \<times> url \<times> url list) list \<Rightarrow> device_groups" where
  "selectPrimaryScreenshotGroups groups =
     \<lparr>dg_iphone = deduplicateSemanticDuplicates (keptGroups iphone groups),
      dg_ipad = deduplicateSemanticDuplicates (keptGroups ipad groups),
      dg_appletv = deduplicateSemanticDuplicates (keptGroups appletv groups)\<rparr>"

section \<open>Screenshot chain (\<^verbatim>\<open>screenshot-chain.js\<close>)\<close>

text \<open>
  An asynchronous operation of the source either returns or throws, and may change the
  world on the way: it is a function from the world to an outcome and the new world. A
  thrown value is kept with its \<open>message\<close> property.
\<close>

datatype exn = Exn "string option"

type_synonym ('a, 'w) io = "'w \<Rightarrow> (exn + 'a) \<times> 'w"

definition ret :: "'a \<Rightarrow> ('a, 'w) io" where
  "ret x = (\<lambda>w. (Inr x, w))"

definition bind :: "('a, 'w) io \<Rightarrow> ('a \<Rightarrow> ('b, 'w) io) \<Rightarrow> ('b, 'w) io" where
  "bind m f = (\<lambda>w. case m w of (Inl e, w1) \<Rightarrow> (Inl e, w1) | (Inr x, w1) \<Rightarrow> f x w1)"

definition try_catch :: "('a, 'w) io \<Rightarrow> (exn \<Rightarrow> ('a, 'w) io) \<Rightarrow> ('a, 'w) io" where
  "try_catch m h = (\<lambda>w. case m w of (Inl e, w1) \<Rightarrow> h e w1 | (Inr x, w1) \<Rightarrow> (Inr x, w1))"

definition throw :: "exn \<Rightarrow> ('a, 'w) io" where
  "throw e = (\<lambda>w. (Inl e, w))"

text \<open>
  An argument that is meant to be an object may be \<^verbatim>\<open>null\<close> or \<^verbatim>\<open>undefined\<close>: it is then
  \<open>None\<close>. Reading a property of \<^verbatim>\<open>null\<close> or \<^verbatim>\<open>undefined\<close> throws a \<^verbatim>\<open>TypeError\<close>, and so
  does destructuring \<^verbatim>\<open>null\<close>; the wording of its message depends on the engine and reaches
  no result of the chain. Spreading \<^verbatim>\<open>null\<close> or \<^verbatim>\<open>undefined\<close> into an object literal adds no
  property.
\<close>

definition type_error :: exn where
  "type_error = Exn (Some ''Cannot read properties of null'')"

definition spread :: "app_data option \<Rightarrow> app_data" where
  "spread x =
     (case x of
        None \<Rightarrow> \<lparr>app_id = None, screenshots = None, ipadScreenshots = None,
                 appletvScreenshots = None, screenshotExtractionWarning = None,
                 lastError = None\<rparr>
      | Some a \<Rightarrow> a)"

record web_screenshots =
  web_screenshots :: "url list"
  web_ipadScreenshots :: "url list"
  web_appletvScreenshots :: "url list"

text \<open>
  The collaborators of the chain. Each may throw: the chain is verified against every
  behaviour of the page scraper, the validator, the deduplicator, the smart filter and the
  timer.
\<close>

record 'w env =
  extractScreenshotsFromWeb :: "string \<Rightarrow> string \<Rightarrow> (web_screenshots, 'w) io"
  validator_validateScreenshots :: "app_data \<Rightarrow> string \<Rightarrow> string \<Rightarrow> (validation, 'w) io"
  deduplicator_deduplicate :: "url list \<Rightarrow> platform \<Rightarrow> (url list, 'w) io"
  smartFilter_filter :: "url list \<Rightarrow> platform \<Rightarrow> (url list, 'w) io"
  delay :: "int \<Rightarrow> (unit, 'w) io"

text \<open>
  The three values that \<^verbatim>\<open>extract\<close> destructures from its \<open>options\<close> argument, after the
  defaults have been applied. The argument itself is an \<open>options option\<close>: \<open>None\<close> is
  \<^verbatim>\<open>null\<close>, and an omitted (or \<^verbatim>\<open>undefined\<close>) argument is \<open>Some default_options\<close>, by the
  parameter default \<^verbatim>\<open>options = {}\<close>.
\<close>

record options =
  forceRefresh :: bool
  skipValidation :: bool
  maxRetries :: int

definition default_options :: options where
  "default_options = \<lparr>forceRefresh = False, skipValidation = False, maxRetries = 2\<rparr>"

datatype reason =
  no_screenshots_in_api | reason_validation_failed | api_processing_error
  | no_screenshots_extracted | web_validation_failed | web_scraping_error

text \<open>The result objects \<open>{success, data}\<close> and \<open>{success, reason, error}\<close>.\<close>

datatype attempt = Success app_data | Failure reason "exn option"

definition when_nonempty :: "(url list \<Rightarrow> platform \<Rightarrow> (url list, 'w) io) \<Rightarrow> url list \<Rightarrow> platform \<Rightarrow> (url list, 'w) io" where
  "when_nonempty f xs p = (if xs \<noteq> [] then f xs p else ret xs)"

definition processScreenshots :: "'w env \<Rightarrow> app_data \<Rightarrow> (app_data, 'w) io" where
  "processScreenshots env appData =
     (let s0 = filter (\<lambda>u. u \<noteq> []) (uniq (or_empty (screenshots appData)));
          i0 = filter (\<lambda>u. u \<noteq> []) (uniq (or_empty (ipadScreenshots appData)));
          t0 = filter (\<lambda>u. u \<noteq> []) (uniq (or_empty (appletvScreenshots appData)))
      in bind (when_nonempty (deduplicator_deduplicate env) s0 iPhone) (\<lambda>s1.
         bind (when_nonempty (deduplicator_deduplicate env) i0 iPad) (\<lambda>i1.
         bind (when_nonempty (deduplicator_deduplicate env) t0 AppleTV) (\<lambda>t1.
         bind (when_nonempty (smartFilter_filter env) s1 iPhone) (\<lambda>s2.
         bind (when_nonempty (smartFilter_filter env) i1 iPad) (\<lambda>i2.
         bind (when_nonempty (smartFilter_filter env) t1 AppleTV) (\<lambda>t2.
         ret (appData\<lparr>screenshots := Some s2, ipadScreenshots := Some i2,
                      appletvScreenshots := Some t2\<rparr>))))))))"

text \<open>\<^verbatim>\<open>x && x.length > 0\<close>\<close>

definition has_some :: "url list option \<Rightarrow> bool" where
  "has_some x = (case x of None \<Rightarrow> False | Some xs \<Rightarrow> xs \<noteq> [])"

text \<open>
  \<^verbatim>\<open>tryItunesApi\<close>. Its first statement reads \<^verbatim>\<open>appData.screenshots\<close> inside the \<^verbatim>\<open>try\<close> block,
  so a \<^verbatim>\<open>null\<close> record is caught and reported as \<open>api_processing_error\<close>.
\<close>

definition tryItunesApi ::
    "'w env \<Rightarrow> app_data option \<Rightarrow> string \<Rightarrow> string \<Rightarrow> bool \<Rightarrow> (attempt, 'w) io" where
  "tryItunesApi env appData appId country skipVal =
     try_catch
       (case appData of
          None \<Rightarrow> throw type_error
        | Some a \<Rightarrow>
            let hasIphone = has_some (screenshots a);
                hasIpad = has_some (ipadScreenshots a)
            in if \<not> hasIphone \<and> \<not> hasIpad then ret (Failure no_screenshots_in_api None)
               else if \<not> skipVal
               then bind (validator_validateScreenshots env a appId country) (\<lambda>validation.
                      if \<not> isValid validation then ret (Failure reason_validation_failed None)
                      else bind (processScreenshots env a) (\<lambda>processed. ret (Success processed)))
               else bind (processScreenshots env a) (\<lambda>processed. ret (Success processed)))
       (\<lambda>error. ret (Failure api_processing_error (Some error)))"

text \<open>
  \<^verbatim>\<open>tryWebScraping\<close>. The record is only spread into the object handed to
  \<^verbatim>\<open>processScreenshots\<close>, so a \<^verbatim>\<open>null\<close> record does not throw here.
\<close>

definition tryWebScraping ::
    "'w env \<Rightarrow> app_data option \<Rightarrow> string \<Rightarrow> string \<Rightarrow> bool \<Rightarrow> (attempt, 'w) io" where
  "tryWebScraping env appData appId country skipVal =
     try_catch
       (bind (extractScreenshotsFromWeb env appId country) (\<lambda>web.
          if length (web_screenshots web) + length (web_ipadScreenshots web)
               + length (web_appletvScreenshots web) = 0
          then ret (Failure no_screenshots_extracted None)
          else bind (processScreenshots env
                       ((spread appData)\<lparr>screenshots := Some (web_screenshots web),
                                ipadScreenshots := Some (web_ipadScreenshots web),
                                appletvScreenshots := Some (web_appletvScreenshots web)\<rparr>))
                 (\<lambda>processed.
                    if \<not> skipVal
                    then bind (validator_validateScreenshots env processed appId country) (\<lambda>validation.
                           if \<not> isValid validation \<and> val_confidence validation < 5 / 10
                           then ret (Failure web_validation_failed None)
                           else ret (Success processed))
                    else ret (Success processed))))
       (\<lambda>error. ret (Failure web_scraping_error (Some error)))"

text \<open>\<^verbatim>\<open>lastError?.message || 'Unknown error'\<close>\<close>

definition error_message :: "exn option \<Rightarrow> string" where
  "error_message e =
     (case e of
        None \<Rightarrow> ''Unknown error''
      | Some (Exn None) \<Rightarrow> ''Unknown error''
      | Some (Exn (Some m)) \<Rightarrow> if m \<noteq> [] then m else ''Unknown error'')"

text \<open>
  \<^verbatim>\<open>createFallbackResult\<close>. The object literal \<open>fallbackData\<close> is built before the \<^verbatim>\<open>try\<close>
  block and reads \<^verbatim>\<open>appData.screenshots\<close>: with a \<^verbatim>\<open>null\<close> record the \<^verbatim>\<open>TypeError\<close> is not
  caught.
\<close>

definition createFallbackResult ::
    "'w env \<Rightarrow> app_data option \<Rightarrow> exn option \<Rightarrow> (app_data, 'w) io" where
  "createFallbackResult env appData lastErr =
     (case appData of
        None \<Rightarrow> throw type_error
      | Some a \<Rightarrow>
          let fallbackData =
                a\<lparr>screenshots := Some (or_empty (screenshots a)),
                  ipadScreenshots := Some (or_empty (ipadScreenshots a)),
                  appletvScreenshots := Some (or_empty (appletvScreenshots a)),
                  screenshotExtractionWarning :=
                    Some ''Screenshot extraction failed, using available data'',
                  lastError := Some (error_message lastErr)\<rparr>
          in try_catch (processScreenshots env fallbackData) (\<lambda>processError. ret fallbackData))"

text \<open>
  One pass of the retry loop: the body inside \<^verbatim>\<open>try\<close>, with its \<^verbatim>\<open>catch\<close>. The outcome is
  either the data that \<^verbatim>\<open>extract\<close> returns at once, or the new value of \<open>lastError\<close>.
\<close>

datatype pass = Return app_data | Continue "exn option"

definition scrape_pass :: "'w env \<Rightarrow> app_data option \<Rightarrow> string \<Rightarrow> string \<Rightarrow> bool \<Rightarrow> int \<Rightarrow> int \<Rightarrow> (pass, 'w) io" where
  "scrape_pass env appData appId country skipVal maxR attempt =
     try_catch
       (bind (tryWebScraping env appData appId country skipVal) (\<lambda>webResult.
          case webResult of
            Success d \<Rightarrow> ret (Return d)
          | Failure r err \<Rightarrow>
              if attempt < maxR
              then bind (delay env (1000 * 2 ^ nat (attempt - 1))) (\<lambda>u. ret (Continue err))
              else ret (Continue err)))
       (\<lambda>error. ret (Continue (Some error)))"

text \<open>\<^verbatim>\<open>for (let attempt = 1; attempt <= maxRetries; attempt++)\<close>, entered at \<open>attempt\<close>.\<close>

function scrape_loop ::
    "'w env \<Rightarrow> app_data option \<Rightarrow> string \<Rightarrow> string \<Rightarrow> bool \<Rightarrow> int \<Rightarrow> int \<Rightarrow> exn option \<Rightarrow> 'w
      \<Rightarrow> (exn + pass) \<times> 'w" where
  "scrape_loop env appData appId country skipVal maxR attempt lastErr w =
     (if attempt \<le> maxR
      then (case scrape_pass env appData appId country skipVal maxR attempt w of
              (Inl e, w1) \<Rightarrow> (Inl e, w1)
            | (Inr (Return d), w1) \<Rightarrow> (Inr (Return d), w1)
            | (Inr (Continue err), w1) \<Rightarrow>
                scrape_loop env appData appId country skipVal maxR (attempt + 1) err w1)
      else (Inr (Continue lastErr), w))"
  by pat_completeness auto
termination
  by (relation "measure (\<lambda>(env, appData, appId, country, skipVal, maxR, attempt, lastErr, w).
                           nat (maxR + 1 - attempt))") auto

definition after_api ::
    "'w env \<Rightarrow> app_data option \<Rightarrow> string \<Rightarrow> string \<Rightarrow> options \<Rightarrow> (app_data, 'w) io" where
  "after_api env appData appId country opts =
     bind (scrape_loop env appData appId country (skipValidation opts) (maxRetries opts) 1 None)
       (\<lambda>p. case p of
               Return d \<Rightarrow> ret d
             | Continue lastErr \<Rightarrow> createFallbackResult env appData lastErr)"

text \<open>
  \<^verbatim>\<open>ScreenshotChain.extract\<close>. Its first statement destructures \<open>options\<close>, outside any
  \<^verbatim>\<open>try\<close> block.
\<close>

definition extract_chain ::
    "'w env \<Rightarrow> app_data option \<Rightarrow> string \<Rightarrow> string \<Rightarrow> options option \<Rightarrow> (app_data, 'w) io" where
  "extract_chain env appData appId country options =
     (case options of
        None \<Rightarrow> throw type_error
      | Some opts \<Rightarrow>
          if \<not> forceRefresh opts
          then bind (tryItunesApi env appData appId country (skipValidation opts)) (\<lambda>apiResult.
                 case apiResult of
                   Success d \<Rightarrow> ret d
                 | Failure r err \<Rightarrow> after_api env appData appId country opts)
          else after_api env appData appId country opts)"

section \<open>Notions used in the statements, and example inputs\<close>

text \<open>An operation returns (rather than throws) from a given world.\<close>

definition returns :: "(exn + 'a) \<times> 'w \<Rightarrow> bool" where
  "returns r = (case fst r of Inl e \<Rightarrow> False | Inr x \<Rightarrow> True)"

text \<open>
  The page scraper, called for this app in the world \<open>w\<close>, yields no candidate: it throws or
  returns three empty arrays.
\<close>

definition nothing_at :: "'w env \<Rightarrow> string \<Rightarrow> string \<Rightarrow> 'w \<Rightarrow> bool" where
  "nothing_at env appId country w =
     (case fst (extractScreenshotsFromWeb env appId country w) of
        Inl e \<Rightarrow> True
      | Inr web \<Rightarrow> web_screenshots web = [] \<and> web_ipadScreenshots web = []
                   \<and> web_appletvScreenshots web = [])"

text \<open>
  Every scrape attempt that the retry loop makes, when it is entered at \<open>attempt\<close> in the
  world \<open>w\<close>, yields no candidate. The attempts are those of \<open>scrape_loop\<close>: attempt
  \<open>k + 1\<close> is made in the world that pass \<open>k\<close> leaves, and only when pass \<open>k\<close> has not
  returned data.
\<close>

function attempts_find_nothing ::
    "'w env \<Rightarrow> app_data option \<Rightarrow> string \<Rightarrow> string \<Rightarrow> bool \<Rightarrow> int \<Rightarrow> int \<Rightarrow> 'w \<Rightarrow> bool" where
  "attempts_find_nothing env appData appId country skipVal maxR attempt w =
     (if attempt \<le> maxR
      then nothing_at env appId country w
           \<and> (case scrape_pass env appData appId country skipVal maxR attempt w of
                 (Inl e, w1) \<Rightarrow> True
               | (Inr (Return d), w1) \<Rightarrow> True
               | (Inr (Continue err), w1) \<Rightarrow>
                   attempts_find_nothing env appData appId country skipVal maxR (attempt + 1) w1)
      else True)"
  by pat_completeness auto
termination
  by (relation "measure (\<lambda>(env, appData, appId, country, skipVal, maxR, attempt, w).
                           nat (maxR + 1 - attempt))") auto

declare attempts_find_nothing.simps [simp del]

text \<open>The cache holds an entry for the key that has not expired at time \<open>t\<close>.\<close>

definition cache_fresh :: "validator \<Rightarrow> string \<Rightarrow> int \<Rightarrow> bool" where
  "cache_fresh v cacheKey t =
     (case validationCache v cacheKey of
        None \<Rightarrow> False
      | Some (timestamp, res) \<Rightarrow> t - timestamp < maxCacheAge)"

text \<open>An ordinal comparison of strings, used for \<open>localeCompare\<close> in the examples.\<close>

fun compare_bytes :: "string \<Rightarrow> string \<Rightarrow> int" where
  "compare_bytes [] [] = 0"
| "compare_bytes [] (y # ys) = - 1"
| "compare_bytes (x # xs) [] = 1"
| "compare_bytes (x # xs) (y # ys) =
     (if (of_char x :: nat) < of_char y then - 1
      else if (of_char y :: nat) < of_char x then 1
      else compare_bytes xs ys)"

definition no_random :: "nat \<Rightarrow> string" where
  "no_random i = []"

definition other_random :: "nat \<Rightarrow> string" where
  "other_random i = ''k3j9x0aa''"

definition two_variants :: "url list" where
  "two_variants = [''https://cdn/app/Home_new.jpg'', ''https://cdn/app/Home_orig.jpg'']"

definition five_of_six :: "url list" where
  "five_of_six =
     [''https://cdn/app/1_of_6.jpg'', ''https://cdn/app/2_of_6.jpg'', ''https://cdn/app/3_of_6.jpg'',
      ''https://cdn/app/4_of_6.jpg'', ''https://cdn/app/5_of_6.jpg'']"

definition two_qualities :: "url list" where
  "two_qualities = [''https://cdn/app/Home_100x100.jpg'', ''https://cdn/app/Menu_1000x1000.jpg'']"

definition two_slices :: "url list" where
  "two_slices = [''https://cdn/app/Slice_0.png'', ''https://cdn/app/Slice_1.png'']"

definition size_variants :: "url list" where
  "size_variants = [''https://cdn/app/shot-100x100.jpg'', ''https://cdn/app/shot-200x200.jpg'']"

definition home_variants :: "url list" where
  "home_variants =
     [''https://cdn/app/Home_100x100.jpg'', ''https://cdn/app/Home_200x200_new.jpg'',
      ''https://cdn/app/Home_300x300_orig.jpg'', ''https://cdn/app/Menu_1x1.png'']"

definition ex_app :: app_data where
  "ex_app = \<lparr>app_id = Some ''1'', screenshots = Some [''https://x/a.png''], ipadScreenshots = None,
             appletvScreenshots = None, screenshotExtractionWarning = None, lastError = None\<rparr>"

definition empty_app :: app_data where
  "empty_app = \<lparr>app_id = Some ''1'', screenshots = Some [], ipadScreenshots = None,
               appletvScreenshots = None, screenshotExtractionWarning = None, lastError = None\<rparr>"

definition tv_only_app :: app_data where
  "tv_only_app = \<lparr>app_id = Some ''1'', screenshots = Some [], ipadScreenshots = None,
                 appletvScreenshots = Some [''https://x/tv/1920x1080.png''],
                 screenshotExtractionWarning = None, lastError = None\<rparr>"

definition three_shot_app :: app_data where
  "three_shot_app =
     \<lparr>app_id = Some ''1'',
      screenshots = Some [''https://x/a.png'', ''https://x/b.png'', ''https://x/c.png''],
      ipadScreenshots = None, appletvScreenshots = None, screenshotExtractionWarning = None,
      lastError = None\<rparr>"

text \<open>
  A network on which the first two HEAD requests succeed, one on which none does, and one on
  which only the fourth request fails.
\<close>

definition net_two_ok :: network where
  "net_two_ok k u = (k < 2)"

definition net_down :: network where
  "net_down k u = False"

definition net_fourth_fails :: network where
  "net_fourth_fails k u = (k \<noteq> 3)"

text \<open>The validator after a first call at time 0, and after a second call at time 59000.\<close>

definition v_first :: validator where
  "v_first = snd (validateScreenshots net_two_ok 0 0 ex_app ''1'' ''us'' new_validator)"

definition v_second :: validator where
  "v_second = snd (validateScreenshots net_two_ok 59000 59000 ex_app ''1'' ''us'' v_first)"

text \<open>The validator after the first call and a call for another app at time 100.\<close>

definition v_between :: validator where
  "v_between = snd (validateScreenshots net_two_ok 100 100 ex_app ''2'' ''us'' v_first)"

text \<open>The validator after a first call at time 0 that is given \<^verbatim>\<open>null\<close> for the record.\<close>

definition v_null :: validator where
  "v_null = snd (validateScreenshots_any net_two_ok 0 0 None ''1'' ''us'' new_validator)"

definition seven_ipad_groups :: "(string \<times> url \<times> url list) list" where
  "seven_ipad_groups =
     map (\<lambda>n. (''screen_'' @ n, ''https://cdn/iPad/'' @ n @ ''/300x400.png'',
                [''https://cdn/iPad/'' @ n @ ''/600x800.png'']))
       [''home'', ''menu'', ''feed'', ''chat'', ''maps'', ''news'', ''cart'']"

definition nine_phone_groups :: "(string \<times> url \<times> url list) list" where
  "nine_phone_groups =
     map (\<lambda>n. (''screen_'' @ n, ''https://cdn/ImageGen/'' @ n @ ''/300x400.png'',
                [''https://cdn/ImageGen/'' @ n @ ''/600x800.png'']))
       [''home'', ''menu'', ''feed'', ''chat'', ''maps'', ''news'', ''cart'', ''user'', ''help'']"

text \<open>
  Collaborators for the examples, over a world that counts the page fetches: the page is
  never reachable (the scraper then returns three empty arrays), the validator is the one
  above on a network that is down, the deduplicator is the one above, the smart filter
  keeps its input and the timer returns at once.
\<close>

definition offline_env :: "nat env" where
  "offline_env =
     \<lparr>extractScreenshotsFromWeb =
        (\<lambda>appId country w.
           (Inr \<lparr>web_screenshots = [], web_ipadScreenshots = [], web_appletvScreenshots = []\<rparr>,
            Suc w)),
      validator_validateScreenshots =
        (\<lambda>appData appId country.
           ret (fst (validateScreenshots net_down 0 0 appData appId country new_validator))),
      deduplicator_deduplicate = (\<lambda>urls p. ret (deduplicate no_random compare_bytes urls p)),
      smartFilter_filter = (\<lambda>urls p. ret urls),
      delay = (\<lambda>ms. ret ())\<rparr>"

text \<open>The number of sequence numbers recorded in \<open>sequenceInfo\<close>, over all totals.\<close>

definition seq_size :: "(int \<times> int list) list \<Rightarrow> nat" where
  "seq_size info = sum_list (map (\<lambda>e. length (snd e)) info)"

section \<open>Sorting\<close>

lemma set_insert_by: "set (insert_by cmp x ys) = insert x (set ys)"
  by (induction ys) auto

lemma set_sort_by: "set (sort_by cmp xs) = set xs"
  by (induction xs) (auto simp: set_insert_by)

lemma length_insert_by: "length (insert_by cmp x ys) = Suc (length ys)"
  by (induction ys) auto

lemma length_sort_by: "length (sort_by cmp xs) = length xs"
  by (induction xs) (auto simp: length_insert_by)

lemma distinct_map_sort_by: "distinct (map f (sort_by cmp xs)) \<longleftrightarrow> distinct (map f xs)"
proof -
  have "set (map f (sort_by cmp xs)) = set (map f xs)" by (simp add: set_sort_by)
  moreover have "length (map f (sort_by cmp xs)) = length (map f xs)" by (simp add: length_sort_by)
  ultimately show ?thesis by (metis card_distinct distinct_card)
qed

lemma sort_by_nonempty: "xs \<noteq> [] \<Longrightarrow> sort_by cmp xs \<noteq> []"
  using length_sort_by [of cmp xs] by (cases "sort_by cmp xs") auto

section \<open>The filtering decision\<close>

lemma seq_size_add: "seq_size (seq_add t n info) \<le> Suc (seq_size info)"
  by (induction info) (auto simp: seq_size_def)

lemma seq_size_foldl:
  "seq_size (foldl (\<lambda>info u. case js_match re_seq u of
                        None \<Rightarrow> info
                      | Some (a, b) \<Rightarrow> seq_add (parseInt b) (parseInt a) info) acc urls)
     \<le> seq_size acc + length urls"
proof (induction urls arbitrary: acc)
  case Nil
  then show ?case by simp
next
  case (Cons u urls)
  show ?case
  proof (cases "js_match re_seq u")
    case None
    then show ?thesis using Cons.IH [of acc] by simp
  next
    case (Some ab)
    obtain a b where ab: "ab = (a, b)" by (cases ab)
    have "seq_size (seq_add (parseInt b) (parseInt a) acc) \<le> Suc (seq_size acc)"
      by (rule seq_size_add)
    then show ?thesis using Cons.IH [of "seq_add (parseInt b) (parseInt a) acc"] Some ab by simp
  qed
qed

lemma seq_entry_le: "(t, ns) \<in> set info \<Longrightarrow> length ns \<le> seq_size info"
  by (induction info) (auto simp: seq_size_def)

lemma sequenceInfo_entry:
  "(t, ns) \<in> set (sequenceInfo urls) \<Longrightarrow> length ns \<le> length urls"
  using seq_size_foldl [of "[]" urls] seq_entry_le [of t ns "sequenceInfo urls"]
  by (simp add: sequenceInfo_def seq_size_def)

lemma seq_complete_bound:
  assumes c: "seq_isComplete (detectSequentialPattern urls)" and ne: "urls \<noteq> []"
  shows "4 * seq_expectedCount (detectSequentialPattern urls) < 5 * int (length urls)"
proof -
  let ?su = "filter (js_test re_seq) urls"
  let ?sorted = "sort_by (\<lambda>a b. int (length (snd b)) - int (length (snd a))) (sequenceInfo ?su)"
  show ?thesis
  proof (cases ?sorted)
    case Nil
    then show ?thesis using c by (simp add: detectSequentialPattern_def Let_def)
  next
    case (Cons e rest)
    obtain tot found where e: "e = (tot, found)" by (cases e)
    have "(tot, found) \<in> set ?sorted" using Cons e by simp
    then have "(tot, found) \<in> set (sequenceInfo ?su)" by (simp add: set_sort_by)
    then have "length found \<le> length ?su" by (rule sequenceInfo_entry)
    also have "\<dots> \<le> length urls" by simp
    finally have len: "int (length found) \<le> int (length urls)" by simp
    have ex: "seq_expectedCount (detectSequentialPattern urls) = tot"
      using Cons e by (simp add: detectSequentialPattern_def Let_def)
    have pos: "0 < int (length urls)" using ne by (cases urls) simp_all
    show ?thesis
    proof (cases "tot \<le> 0")
      case True
      then show ?thesis using ex pos by linarith
    next
      case False
      then have tpos: "0 < tot" by simp
      have "(of_nat (length found) / of_int tot :: rat) > 8 / 10"
        using c Cons e False by (simp add: detectSequentialPattern_def Let_def)
      then have "(8 / 10 :: rat) * of_int tot < of_nat (length found)"
        using tpos by (simp add: pos_less_divide_eq)
      then have "(of_int (4 * tot) :: rat) < of_int (5 * int (length found))"
        by simp
      then have "4 * tot < 5 * int (length found)"
        by (simp only: of_int_less_iff)
      then show ?thesis using ex len by simp
    qed
  qed
qed

lemma slice_complete_bound:
  assumes c: "slice_isComplete (detectSlicePattern urls)"
  shows "slice_expectedCount (detectSlicePattern urls) \<le> int (length urls)"
proof -
  let ?su = "filter (js_test re_slice) urls"
  let ?ns = "remdups (concat (map (\<lambda>u. case js_match re_slice u of
                                                      None \<Rightarrow> [] | Some d \<Rightarrow> [parseInt d]) ?su))"
  have "length (concat (map (\<lambda>u. case js_match re_slice u of
                                                      None \<Rightarrow> [] | Some d \<Rightarrow> [parseInt d]) xs)) \<le> length xs" for xs
    by (induction xs) (auto split: option.splits)
  then have "length ?ns \<le> length ?su"
    using length_remdups_leq le_trans by blast
  also have "\<dots> \<le> length urls" by simp
  finally have "int (length ?ns) \<le> int (length urls)" by simp
  moreover have "slice_expectedCount (detectSlicePattern urls) = int (length ?ns)"
    using c by (simp add: detectSlicePattern_def Let_def)
  ultimately show ?thesis by simp
qed

lemma dedup_target_bound:
  "max 3 \<lceil>of_int (uniqueBaseNames (detectRedundancy urls)) * (8 / 10 :: rat)\<rceil> \<le> max 3 (int (length urls))"
proof -
  let ?n = "int (length (remdups (map extractBaseName urls)))"
  have n: "uniqueBaseNames (detectRedundancy urls) = ?n"
    by (simp add: detectRedundancy_def Let_def)
  have "length (remdups (map extractBaseName urls)) \<le> length urls"
    using length_remdups_leq [of "map extractBaseName urls"] by simp
  then have le: "?n \<le> int (length urls)" by simp
  have "(of_int ?n * (8 / 10) :: rat) \<le> of_int ?n" by simp
  then have "\<lceil>of_int ?n * (8 / 10 :: rat)\<rceil> \<le> ?n" by (simp add: ceiling_le_iff)
  then show ?thesis using n le by simp
qed

lemma platform_limits_bound: "optimal (getPlatformLimits p a) \<le> reasonable (getPlatformLimits p a)"
  by (cases p) (simp_all add: getPlatformLimits_def baseLimits_def Let_def)

lemma two_variants_decision:
  "fst (analyzeCollection two_variants iPhone)
     = \<lparr>strategy = deduplicate_aggressive, confidence = 8 / 10, action = aggressive_deduplication,
        maxScreenshots = 3\<rparr>"
  by code_simp

lemma five_of_six_decision:
  "fst (analyzeCollection five_of_six iPhone)
     = \<lparr>strategy = respect_sequence, confidence = 9 / 10, action = keep_complete_sequence,
        maxScreenshots = 6\<rparr>"
  by code_simp

lemma two_qualities_decision:
  "fst (analyzeCollection two_qualities iPhone)
     = \<lparr>strategy = quality_filter, confidence = 7 / 10, action = prefer_high_quality,
        maxScreenshots = 4\<rparr>"
  by code_simp

lemma two_slices_decision:
  "fst (analyzeCollection two_slices iPhone)
     = \<lparr>strategy = respect_slices, confidence = 9 / 10, action = keep_complete_slices,
        maxScreenshots = 2\<rparr>"
  by code_simp

lemma example_counts:
  "map_option totalCount (snd (analyzeCollection two_variants iPhone)) = Some 2"
  "map_option totalCount (snd (analyzeCollection five_of_six iPhone)) = Some 5"
  "map_option totalCount (snd (analyzeCollection two_qualities iPhone)) = Some 2"
  by (simp_all add: analyzeCollection_def analyze_def two_variants_def five_of_six_def
        two_qualities_def)

text \<open>
  C2, as the code has it. For every non-empty URL sequence and platform, the decision of
  \<^verbatim>\<open>analyzeCollection\<close> satisfies \<open>maxScreenshots \<le> totalCount\<close> when the strategy is
  \<open>respect_slices\<close> or \<open>platform_optimize\<close>. Under \<open>respect_sequence\<close> the count is the
  expected length of a sequence that is more than 80 percent present, so only
  \<open>4 * maxScreenshots < 5 * totalCount\<close> holds; under \<open>deduplicate_aggressive\<close> the count has a
  floor of 3, so only \<open>maxScreenshots \<le> max 3 totalCount\<close> holds.
\<close>

theorem decision_bounds:
  assumes "urls \<noteq> []"
  shows "(strategy (fst (analyzeCollection urls p)) = respect_slices
            \<or> strategy (fst (analyzeCollection urls p)) = platform_optimize
          \<longrightarrow> maxScreenshots (fst (analyzeCollection urls p)) \<le> int (length urls))
       \<and> (strategy (fst (analyzeCollection urls p)) = respect_sequence
          \<longrightarrow> 4 * maxScreenshots (fst (analyzeCollection urls p)) < 5 * int (length urls))
       \<and> (strategy (fst (analyzeCollection urls p)) = deduplicate_aggressive
          \<longrightarrow> maxScreenshots (fst (analyzeCollection urls p)) \<le> max 3 (int (length urls)))"
proof -
  let ?a = "analyze urls p"
  have d: "fst (analyzeCollection urls p) = determineFilteringStrategy ?a"
    using assms by (simp add: analyzeCollection_def)
  have f: "sequential ?a = detectSequentialPattern urls" "slice ?a = detectSlicePattern urls"
    "redundancy ?a = detectRedundancy urls" "totalCount ?a = int (length urls)" "platform ?a = p"
    by (simp_all add: analyze_def)
  have s1: "seq_isComplete (sequential ?a) \<Longrightarrow> 4 * seq_expectedCount (sequential ?a) < 5 * int (length urls)"
    using seq_complete_bound [of urls] assms f by simp
  have s2: "slice_isComplete (slice ?a) \<Longrightarrow> slice_expectedCount (slice ?a) \<le> int (length urls)"
    using slice_complete_bound [of urls] f by simp
  have s3: "max 3 \<lceil>of_int (uniqueBaseNames (redundancy ?a)) * (8 / 10 :: rat)\<rceil> \<le> max 3 (int (length urls))"
    using dedup_target_bound [of urls] f by simp
  have s4: "reasonable (getPlatformLimits (platform ?a) ?a) < totalCount ?a
      \<Longrightarrow> optimal (getPlatformLimits (platform ?a) ?a) \<le> int (length urls)"
    using platform_limits_bound [of "platform ?a" ?a] f(4) by simp
  show ?thesis
    unfolding d determineFilteringStrategy_def
    using s1 s2 s3 s4 by (simp del: max.bounded_iff)
qed

theorem decision_bounds_witness:
  "two_slices \<noteq> []
   \<and> strategy (fst (analyzeCollection two_slices iPhone)) = respect_slices
   \<and> maxScreenshots (fst (analyzeCollection two_slices iPhone)) \<le> int (length two_slices)
   \<and> strategy (fst (analyzeCollection five_of_six iPhone)) = respect_sequence
   \<and> 4 * maxScreenshots (fst (analyzeCollection five_of_six iPhone)) < 5 * int (length five_of_six)
   \<and> strategy (fst (analyzeCollection two_variants iPhone)) = deduplicate_aggressive
   \<and> maxScreenshots (fst (analyzeCollection two_variants iPhone)) \<le> max 3 (int (length two_variants))"
proof -
  have ne: "two_slices \<noteq> []" "five_of_six \<noteq> []" "two_variants \<noteq> []"
    by (simp_all add: two_slices_def five_of_six_def two_variants_def)
  have s: "strategy (fst (analyzeCollection two_slices iPhone)) = respect_slices"
    "strategy (fst (analyzeCollection five_of_six iPhone)) = respect_sequence"
    "strategy (fst (analyzeCollection two_variants iPhone)) = deduplicate_aggressive"
    by (simp_all add: two_slices_decision five_of_six_decision two_variants_decision)
  show ?thesis
    using decision_bounds [OF ne(1), of iPhone] decision_bounds [OF ne(2), of iPhone]
      decision_bounds [OF ne(3), of iPhone] ne(1) s
    by simp
qed

text \<open>
  C2 as stated fails: two variants of one image are analysed as \<open>deduplicate_aggressive\<close>
  with a count of 3, five URLs of a six-part sequence as \<open>respect_sequence\<close> with a count of
  6, and two URLs of different quality as \<open>quality_filter\<close> with a count of 4.
\<close>

theorem decision_bounds_counterexample:
  "strategy (fst (analyzeCollection two_variants iPhone)) \<noteq> none
   \<and> map_option totalCount (snd (analyzeCollection two_variants iPhone)) = Some 2
   \<and> \<not> maxScreenshots (fst (analyzeCollection two_variants iPhone)) \<le> 2
   \<and> strategy (fst (analyzeCollection five_of_six iPhone)) \<noteq> none
   \<and> map_option totalCount (snd (analyzeCollection five_of_six iPhone)) = Some 5
   \<and> \<not> maxScreenshots (fst (analyzeCollection five_of_six iPhone)) \<le> 5
   \<and> strategy (fst (analyzeCollection two_qualities iPhone)) \<noteq> none
   \<and> map_option totalCount (snd (analyzeCollection two_qualities iPhone)) = Some 2
   \<and> \<not> maxScreenshots (fst (analyzeCollection two_qualities iPhone)) \<le> 2"
  by (simp add: two_variants_decision five_of_six_decision two_qualities_decision example_counts)

section \<open>The chain\<close>

lemma returns_iff: "returns r \<longleftrightarrow> (\<exists>x w. r = (Inr x, w))"
  by (cases r; cases "fst r") (auto simp: returns_def)

lemma try_catch_returns:
  assumes "\<And>e w. returns (h e w)"
  shows "returns (try_catch m h w)"
proof (cases "m w")
  case (Pair r w1)
  then show ?thesis using assms by (cases r) (simp_all add: try_catch_def returns_def)
qed

lemma ret_returns: "returns (ret x w)"
  by (simp add: ret_def returns_def)

lemma tryItunesApi_returns: "returns (tryItunesApi env a appId country sv w)"
  unfolding tryItunesApi_def by (rule try_catch_returns) (rule ret_returns)

lemma scrape_pass_returns: "returns (scrape_pass env a appId country sv maxR k w)"
  unfolding scrape_pass_def by (rule try_catch_returns) (rule ret_returns)

lemma scrape_loop_returns: "returns (scrape_loop env a appId country sv maxR k lastErr w)"
proof (induction env a appId country sv maxR k lastErr w rule: scrape_loop.induct)
  case (1 env a appId country sv maxR k lastErr w)
  show ?case
  proof (cases "k \<le> maxR")
    case False
    then show ?thesis by (simp add: returns_def)
  next
    case True
    obtain x w1 where p: "scrape_pass env a appId country sv maxR k w = (Inr x, w1)"
      using scrape_pass_returns [of env a appId country sv maxR k w] by (auto simp: returns_iff)
    show ?thesis
    proof (cases x)
      case (Return d)
      then show ?thesis using True p by (simp add: returns_def)
    next
      case (Continue err)
      then show ?thesis using True p "1.IH" [OF True p [symmetric] refl Continue] by simp
    qed
  qed
qed

lemma createFallbackResult_returns: "returns (createFallbackResult env (Some a) lastErr w)"
  unfolding createFallbackResult_def Let_def option.case
  by (rule try_catch_returns) (rule ret_returns)

lemma createFallbackResult_null: "createFallbackResult env None lastErr w = (Inl type_error, w)"
  by (simp add: createFallbackResult_def throw_def)

lemma after_api_returns: "returns (after_api env (Some a) appId country opts w)"
proof -
  obtain x w1 where l: "scrape_loop env (Some a) appId country (skipValidation opts) (maxRetries opts) 1 None w = (Inr x, w1)"
    using scrape_loop_returns [of env "Some a" appId country "skipValidation opts" "maxRetries opts" 1 None w]
    by (auto simp: returns_iff)
  show ?thesis
    using l createFallbackResult_returns [of env a _ w1]
    by (cases x) (simp_all add: after_api_def bind_def ret_returns)
qed

lemma extract_returns: "returns (extract_chain env (Some a) appId country (Some opts) w)"
proof (cases "forceRefresh opts")
  case True
  then show ?thesis by (simp add: extract_chain_def after_api_returns)
next
  case False
  obtain x w1 where t: "tryItunesApi env (Some a) appId country (skipValidation opts) w = (Inr x, w1)"
    using tryItunesApi_returns [of env "Some a" appId country "skipValidation opts" w]
    by (auto simp: returns_iff)
  show ?thesis
    using False t after_api_returns [of env a appId country opts w1]
    by (cases x) (simp_all add: extract_chain_def bind_def ret_returns)
qed

lemma tryItunesApi_no_primary:
  assumes "\<not> has_some (screenshots a)" and "\<not> has_some (ipadScreenshots a)"
  shows "tryItunesApi env (Some a) appId country sv w
           = (Inr (Failure no_screenshots_in_api None), w)"
  using assms by (simp add: tryItunesApi_def try_catch_def ret_def)

lemma tryItunesApi_null:
  "tryItunesApi env None appId country sv w
     = (Inr (Failure api_processing_error (Some type_error)), w)"
  by (simp add: tryItunesApi_def try_catch_def ret_def throw_def)

lemma tryWebScraping_nothing:
  assumes "nothing_at env appId country w"
  shows "\<exists>r err w1. tryWebScraping env a appId country sv w = (Inr (Failure r err), w1)"
proof (cases "extractScreenshotsFromWeb env appId country w")
  case (Pair x w1)
  show ?thesis
  proof (cases x)
    case (Inl e)
    then show ?thesis using Pair by (simp add: tryWebScraping_def try_catch_def bind_def ret_def)
  next
    case (Inr web)
    have "web_screenshots web = [] \<and> web_ipadScreenshots web = [] \<and> web_appletvScreenshots web = []"
      using assms by (simp add: nothing_at_def Pair Inr)
    then show ?thesis using Pair Inr
      by (simp add: tryWebScraping_def try_catch_def bind_def ret_def)
  qed
qed

lemma scrape_pass_nothing:
  assumes "nothing_at env appId country w"
  shows "\<exists>err w1. scrape_pass env a appId country sv maxR k w = (Inr (Continue err), w1)"
proof -
  obtain r err w1 where t: "tryWebScraping env a appId country sv w = (Inr (Failure r err), w1)"
    using tryWebScraping_nothing [OF assms] by blast
  show ?thesis
  proof (cases "k < maxR")
    case False
    then show ?thesis using t by (simp add: scrape_pass_def try_catch_def bind_def ret_def)
  next
    case True
    obtain y w2 where d: "delay env (1000 * 2 ^ nat (k - 1)) w1 = (y, w2)" by (cases "delay env (1000 * 2 ^ nat (k - 1)) w1")
    show ?thesis using t True d
      by (cases y) (simp_all add: scrape_pass_def try_catch_def bind_def ret_def)
  qed
qed

lemma attempts_find_nothing_step:
  assumes "attempts_find_nothing env a appId country sv maxR k w" and "k \<le> maxR"
  shows "nothing_at env appId country w"
    and "scrape_pass env a appId country sv maxR k w = (Inr (Continue err), w1)
         \<Longrightarrow> attempts_find_nothing env a appId country sv maxR (k + 1) w1"
proof -
  have u: "nothing_at env appId country w
           \<and> (case scrape_pass env a appId country sv maxR k w of
                 (Inl e, w1) \<Rightarrow> True
               | (Inr (Return d), w1) \<Rightarrow> True
               | (Inr (Continue err), w1) \<Rightarrow>
                   attempts_find_nothing env a appId country sv maxR (k + 1) w1)"
    using assms attempts_find_nothing.simps [of env a appId country sv maxR k w] by simp
  show "nothing_at env appId country w" using u by (rule conjunct1)
  show "attempts_find_nothing env a appId country sv maxR (k + 1) w1"
    if "scrape_pass env a appId country sv maxR k w = (Inr (Continue err), w1)"
    using u that by simp
qed

lemma scrape_loop_nothing:
  assumes "attempts_find_nothing env a appId country sv maxR k w"
  shows "\<exists>err w1. scrape_loop env a appId country sv maxR k lastErr w = (Inr (Continue err), w1)"
  using assms
proof (induction env a appId country sv maxR k lastErr w rule: scrape_loop.induct)
  case (1 env a appId country sv maxR k lastErr w)
  show ?case
  proof (cases "k \<le> maxR")
    case False
    then show ?thesis by simp
  next
    case True
    obtain err w1 where p: "scrape_pass env a appId country sv maxR k w = (Inr (Continue err), w1)"
      using scrape_pass_nothing [OF attempts_find_nothing_step(1) [OF "1.prems" True]] by blast
    have n: "attempts_find_nothing env a appId country sv maxR (k + 1) w1"
      using "1.prems" True p by (rule attempts_find_nothing_step(2))
    show ?thesis
      using True p "1.IH" [OF True p [symmetric] refl refl n] by simp
  qed
qed

lemma processScreenshots_empty:
  assumes "or_empty (screenshots a) = []" and "or_empty (ipadScreenshots a) = []"
    and "or_empty (appletvScreenshots a) = []"
  shows "processScreenshots env a w =
           (Inr (a\<lparr>screenshots := Some [], ipadScreenshots := Some [], appletvScreenshots := Some []\<rparr>), w)"
  using assms by (simp add: processScreenshots_def when_nonempty_def bind_def ret_def)

lemma has_some_or_empty: "\<not> has_some x \<longleftrightarrow> or_empty x = []"
  by (cases x) (simp_all add: has_some_def or_empty_def)

lemma createFallbackResult_empty:
  assumes "\<not> has_some (screenshots a)" and "\<not> has_some (ipadScreenshots a)"
    and "\<not> has_some (appletvScreenshots a)"
  shows "createFallbackResult env (Some a) lastErr w =
           (Inr (a\<lparr>screenshots := Some [], ipadScreenshots := Some [], appletvScreenshots := Some [],
                    screenshotExtractionWarning :=
                      Some ''Screenshot extraction failed, using available data'',
                    lastError := Some (error_message lastErr)\<rparr>), w)"
proof -
  let ?f = "a\<lparr>screenshots := Some (or_empty (screenshots a)),
                    ipadScreenshots := Some (or_empty (ipadScreenshots a)),
                    appletvScreenshots := Some (or_empty (appletvScreenshots a)),
                    screenshotExtractionWarning :=
                      Some ''Screenshot extraction failed, using available data'',
                    lastError := Some (error_message lastErr)\<rparr>"
  have e: "or_empty (screenshots ?f) = []" "or_empty (ipadScreenshots ?f) = []"
    "or_empty (appletvScreenshots ?f) = []"
    using assms by (simp_all add: has_some_or_empty or_empty_def)
  show ?thesis
    using assms
    unfolding createFallbackResult_def Let_def option.case try_catch_def
      processScreenshots_empty [OF e]
    by (simp add: has_some_or_empty)
qed

lemma offline_nothing: "nothing_at offline_env appId country w"
  by (simp add: nothing_at_def offline_env_def)

lemma offline_pass:
  "scrape_pass offline_env a appId country sv maxR k w = (Inr (Continue None), Suc w)"
  by (simp add: scrape_pass_def tryWebScraping_def try_catch_def bind_def ret_def offline_env_def)

lemma offline_attempts:
  "attempts_find_nothing offline_env a ''1'' ''us''
     (skipValidation default_options) (maxRetries default_options) 1 0"
  by (simp add: default_options_def attempts_find_nothing.simps [of offline_env a _ _ _ 2]
      offline_nothing offline_pass)

lemma offline_loop:
  "scrape_loop offline_env a ''1'' ''us''
     (skipValidation default_options) (maxRetries default_options) 1 None 0
     = (Inr (Continue None), 2)"
  by (simp add: default_options_def offline_pass)

lemma offline_after_null:
  "after_api offline_env None ''1'' ''us'' default_options 0 = (Inl type_error, 2)"
  unfolding after_api_def bind_def offline_loop by (simp add: createFallbackResult_null)

lemma offline_null_record:
  "extract_chain offline_env None ''1'' ''us'' (Some default_options) 0 = (Inl type_error, 2)"
proof -
  have f: "\<not> forceRefresh default_options" by (simp add: default_options_def)
  show ?thesis
    unfolding extract_chain_def option.case bind_def tryItunesApi_null
    using f by (simp add: offline_after_null)
qed

lemma offline_null_options:
  "extract_chain offline_env (Some empty_app) ''1'' ''us'' None 0 = (Inl type_error, 0)"
  by (simp add: extract_chain_def throw_def)

text \<open>
  C1, for records and options that are objects. For every app record that is an object (its
  screenshot properties absent or arrays of strings), every app id and country, and every
  options object (or none given), and whatever the collaborators do, \<^verbatim>\<open>extract\<close> returns and
  does not throw; and when the record holds no screenshot URL for any platform and every
  scrape attempt that the retry loop makes, up to \<open>maxRetries\<close>, yields no candidate, the
  result has three empty arrays and a warning.
\<close>

theorem extract_never_raises:
  "returns (extract_chain env (Some appData) appId country (Some opts) w)
   \<and> (\<not> has_some (screenshots appData) \<and> \<not> has_some (ipadScreenshots appData)
        \<and> \<not> has_some (appletvScreenshots appData)
        \<and> attempts_find_nothing env (Some appData) appId country (skipValidation opts)
            (maxRetries opts) 1 w
      \<longrightarrow> (\<exists>r w1. extract_chain env (Some appData) appId country (Some opts) w = (Inr r, w1)
                    \<and> screenshots r = Some [] \<and> ipadScreenshots r = Some []
                    \<and> appletvScreenshots r = Some [] \<and> screenshotExtractionWarning r \<noteq> None))"
proof (intro conjI impI)
  show "returns (extract_chain env (Some appData) appId country (Some opts) w)"
    by (rule extract_returns)
next
  assume h: "\<not> has_some (screenshots appData) \<and> \<not> has_some (ipadScreenshots appData)
        \<and> \<not> has_some (appletvScreenshots appData)
        \<and> attempts_find_nothing env (Some appData) appId country (skipValidation opts)
            (maxRetries opts) 1 w"
  then have n: "attempts_find_nothing env (Some appData) appId country (skipValidation opts)
            (maxRetries opts) 1 w"
    by simp
  obtain err w1 where l: "scrape_loop env (Some appData) appId country (skipValidation opts)
        (maxRetries opts) 1 None w = (Inr (Continue err), w1)"
    using scrape_loop_nothing [OF n, of None] by blast
  have after: "\<exists>r w1. after_api env (Some appData) appId country opts w = (Inr r, w1)
                    \<and> screenshots r = Some [] \<and> ipadScreenshots r = Some []
                    \<and> appletvScreenshots r = Some [] \<and> screenshotExtractionWarning r \<noteq> None"
    using l h by (simp add: after_api_def bind_def createFallbackResult_empty)
  show "\<exists>r w1. extract_chain env (Some appData) appId country (Some opts) w = (Inr r, w1)
                    \<and> screenshots r = Some [] \<and> ipadScreenshots r = Some []
                    \<and> appletvScreenshots r = Some [] \<and> screenshotExtractionWarning r \<noteq> None"
  proof (cases "forceRefresh opts")
    case True
    then show ?thesis using after by (simp add: extract_chain_def)
  next
    case False
    then show ?thesis using after h
      by (simp add: extract_chain_def bind_def tryItunesApi_no_primary)
  qed
qed

theorem extract_never_raises_witness:
  "\<not> has_some (screenshots empty_app) \<and> \<not> has_some (ipadScreenshots empty_app)
   \<and> \<not> has_some (appletvScreenshots empty_app)
   \<and> attempts_find_nothing offline_env (Some empty_app) ''1'' ''us''
       (skipValidation default_options) (maxRetries default_options) 1 0
   \<and> returns (extract_chain offline_env (Some empty_app) ''1'' ''us'' (Some default_options) 0)
   \<and> (\<exists>r w1. extract_chain offline_env (Some empty_app) ''1'' ''us'' (Some default_options) 0
                 = (Inr r, w1)
               \<and> screenshots r = Some [] \<and> ipadScreenshots r = Some []
               \<and> appletvScreenshots r = Some [] \<and> screenshotExtractionWarning r \<noteq> None)"
proof -
  have h: "\<not> has_some (screenshots empty_app) \<and> \<not> has_some (ipadScreenshots empty_app)
   \<and> \<not> has_some (appletvScreenshots empty_app)
   \<and> attempts_find_nothing offline_env (Some empty_app) ''1'' ''us''
       (skipValidation default_options) (maxRetries default_options) 1 0"
    using offline_attempts [of "Some empty_app"] by (simp add: empty_app_def has_some_def)
  show ?thesis
    using extract_never_raises [of offline_env empty_app "''1''" "''us''" default_options 0] h
    by blast
qed

text \<open>
  C1 as stated fails. With a \<^verbatim>\<open>null\<close> app record, the page never reachable and the default
  options, \<^verbatim>\<open>tryItunesApi\<close> catches the \<^verbatim>\<open>TypeError\<close>, both scrape attempts find nothing, and
  \<^verbatim>\<open>createFallbackResult\<close> throws; with \<^verbatim>\<open>null\<close> for the options \<^verbatim>\<open>extract\<close> throws at once.
\<close>

theorem extract_never_raises_counterexample:
  "extract_chain offline_env None ''1'' ''us'' (Some default_options) 0 = (Inl type_error, 2)
   \<and> \<not> returns (extract_chain offline_env None ''1'' ''us'' (Some default_options) 0)
   \<and> extract_chain offline_env (Some empty_app) ''1'' ''us'' None 0 = (Inl type_error, 0)
   \<and> \<not> returns (extract_chain offline_env (Some empty_app) ''1'' ''us'' None 0)"
  by (simp add: offline_null_record offline_null_options returns_def)

text \<open>
  C3 fails on the code. \<^verbatim>\<open>tryItunesApi\<close> looks at the phone and the tablet collection only: a
  record whose only screenshots are for the tv is reported as \<open>no_screenshots_in_api\<close>, with
  validation skipped or not, and no collaborator is called.
\<close>

theorem tv_only_primary_is_rejected:
  assumes "\<not> has_some (screenshots a)" and "\<not> has_some (ipadScreenshots a)"
    and "has_some (appletvScreenshots a)"
  shows "tryItunesApi env (Some a) appId country skipVal w
           = (Inr (Failure no_screenshots_in_api None), w)"
  using assms(1,2) by (rule tryItunesApi_no_primary)

theorem tv_only_primary_is_rejected_witness:
  "\<not> has_some (screenshots tv_only_app) \<and> \<not> has_some (ipadScreenshots tv_only_app)
   \<and> has_some (appletvScreenshots tv_only_app)
   \<and> tryItunesApi offline_env (Some tv_only_app) ''1'' ''us'' True 0
        = (Inr (Failure no_screenshots_in_api None), 0)"
proof -
  have h: "\<not> has_some (screenshots tv_only_app)" "\<not> has_some (ipadScreenshots tv_only_app)"
    "has_some (appletvScreenshots tv_only_app)"
    by (simp_all add: tv_only_app_def has_some_def)
  show ?thesis
    using tv_only_primary_is_rejected [OF h, of offline_env "''1''" "''us''" True 0] h by simp
qed

section \<open>Group selection\<close>

lemma keep_groups_length: "int (length (keep_groups maxS t gs)) \<le> max 0 (maxS - t)"
proof (induction gs arbitrary: t)
  case Nil
  then show ?case by simp
next
  case (Cons g gs)
  show ?case using Cons.IH [of t] Cons.IH [of "t + 1"] by auto
qed

lemma keep_groups_subset:
  "set (keep_groups maxS t gs) \<subseteq> (\<lambda>g. selectBestQualityUrl (pg_first g) (pg_rest g)) ` set gs"
proof (induction gs arbitrary: t)
  case Nil
  then show ?case by simp
next
  case (Cons g gs)
  show ?case using Cons.IH [of t] Cons.IH [of "t + 1"] by auto
qed

lemma semantic_step_length:
  "length (snd (foldl (\<lambda>(seenBasenames, result) u.
                   case js_match re_base u of
                     None \<Rightarrow> (seenBasenames, result @ [u])
                   | Some (uuid, filename) \<Rightarrow>
                       if js_remove re_version_suffix filename \<in> set seenBasenames
                       then (seenBasenames, result)
                       else (js_remove re_version_suffix filename # seenBasenames, result @ [u]))
            (seen, res) shots)) \<le> length res + length shots"
proof (induction shots arbitrary: seen res)
  case Nil
  then show ?case by simp
next
  case (Cons u shots)
  show ?case
  proof (cases "js_match re_base u")
    case None
    then show ?thesis using Cons.IH [of seen "res @ [u]"] by simp
  next
    case (Some m)
    obtain uuid filename where m: "m = (uuid, filename)" by (cases m)
    show ?thesis
      using Some m Cons.IH [of seen res]
        Cons.IH [of "js_remove re_version_suffix filename # seen" "res @ [u]"]
      by (cases "js_remove re_version_suffix filename \<in> set seen") simp_all
  qed
qed

lemma semantic_length: "length (deduplicateSemanticDuplicates shots) \<le> length shots"
  using semantic_step_length [of "[]" "[]" shots] by (simp add: deduplicateSemanticDuplicates_def)

lemma seven_ipad_kept:
  "length (dg_ipad (selectPrimaryScreenshotGroups seven_ipad_groups)) = 6
   \<and> length (keptGroups ipad seven_ipad_groups) = 6
   \<and> length (filter (\<lambda>g. pg_deviceType g = ipad \<and> 2 \<le> pg_confidence g)
                (map classify seven_ipad_groups)) = 7"
  by code_simp

lemma nine_phone_kept: "length (keptGroups iphone nine_phone_groups) = 8"
  by code_simp

text \<open>
  C4, as the code has it. At the group-selection stage the number of groups kept for a device
  is capped at 8 for the phone and at 6 for the tablet (and for the tv); every kept URL is
  the best-quality URL of one group classified for that device, and the semantic-duplicate
  pass that ends the stage keeps the caps.
\<close>

theorem group_selection_caps:
  "int (length (keptGroups d groups)) \<le> group_cap d
   \<and> set (keptGroups d groups)
        \<subseteq> (\<lambda>g. selectBestQualityUrl (pg_first g) (pg_rest g))
             ` {g \<in> set (map classify groups). pg_deviceType g = d}
   \<and> int (length (dg_iphone (selectPrimaryScreenshotGroups groups))) \<le> 8
   \<and> int (length (dg_ipad (selectPrimaryScreenshotGroups groups))) \<le> 6
   \<and> int (length (dg_appletv (selectPrimaryScreenshotGroups groups))) \<le> 6"
proof -
  have cap: "int (length (keptGroups dev groups)) \<le> group_cap dev" for dev
    using keep_groups_length [of "group_cap dev" 0 "devicePatterns dev groups"]
    by (simp add: keptGroups_def group_cap_def)
  have sem: "int (length (deduplicateSemanticDuplicates (keptGroups dev groups))) \<le> group_cap dev" for dev
    using cap [of dev] semantic_length [of "keptGroups dev groups"] by linarith
  have sub: "set (keptGroups d groups)
        \<subseteq> (\<lambda>g. selectBestQualityUrl (pg_first g) (pg_rest g))
             ` {g \<in> set (map classify groups). pg_deviceType g = d}"
    using keep_groups_subset [of "group_cap d" 0 "devicePatterns d groups"]
    by (simp add: keptGroups_def devicePatterns_def set_sort_by)
  show ?thesis
    using cap [of d] sub sem [of iphone] sem [of ipad] sem [of appletv]
    by (simp add: selectPrimaryScreenshotGroups_def group_cap_def)
qed

theorem group_selection_caps_witness:
  "int (length (keptGroups iphone nine_phone_groups)) \<le> group_cap iphone
   \<and> length (keptGroups iphone nine_phone_groups) = 8
   \<and> length nine_phone_groups = 9"
  using group_selection_caps [of iphone nine_phone_groups] nine_phone_kept
  by (simp add: nine_phone_groups_def)

text \<open>
  C4 as stated fails for the tablet: of seven tablet groups that all reach the confidence
  asked of a kept group, one below the claimed cap of 8, only six are kept.
\<close>

theorem group_selection_counterexample:
  "length (filter (\<lambda>g. pg_deviceType g = ipad \<and> 2 \<le> pg_confidence g)
             (map classify seven_ipad_groups)) = 7
   \<and> length (keptGroups ipad seven_ipad_groups) = 6
   \<and> length (dg_ipad (selectPrimaryScreenshotGroups seven_ipad_groups)) = 6"
  using seven_ipad_kept by simp

section \<open>The validator\<close>

lemma analyzeScreenshotPatterns_tv:
  "analyzeScreenshotPatterns (a\<lparr>appletvScreenshots := x\<rparr>) = analyzeScreenshotPatterns a"
  by (simp add: analyzeScreenshotPatterns_def detectContentMismatches_def)

lemma validateScreenshotUrls_tv:
  "validateScreenshotUrls net (a\<lparr>appletvScreenshots := x\<rparr>) v = validateScreenshotUrls net a v"
  by (simp add: validateScreenshotUrls_def)

lemma performValidation_tv:
  "performValidation net (a\<lparr>appletvScreenshots := x\<rparr>) appId country v
     = performValidation net a appId country v"
  unfolding performValidation_def analyzeScreenshotPatterns_tv validateScreenshotUrls_tv
  by (rule refl)

lemma validate_hit:
  assumes "validationCache v (appId @ ''_'' @ country) = Some (ts, res)"
    and "t_read - ts < maxCacheAge"
  shows "validateScreenshots net t_read t_store a appId country v = (res, v)"
  using assms by (simp add: validateScreenshots_def)

lemma validate_miss:
  assumes "\<not> cache_fresh v (appId @ ''_'' @ country) t_read"
  shows "validateScreenshots net t_read t_store a appId country v =
           (fst (performValidation net a appId country v),
            (snd (performValidation net a appId country v))
              \<lparr>validationCache :=
                 (validationCache (snd (performValidation net a appId country v)))
                   (appId @ ''_'' @ country \<mapsto> (t_store, fst (performValidation net a appId country v)))\<rparr>)"
  using assms
  by (auto simp: validateScreenshots_def cache_fresh_def Let_def split: option.splits prod.splits)

lemma generateRecommendations_rules:
  "(conf < 3 / 10 \<longrightarrow> force_refresh \<in> set (generateRecommendations iss conf))
   \<and> (3 / 10 \<le> conf \<and> conf < 7 / 10 \<longrightarrow> clear_cache \<in> set (generateRecommendations iss conf))
   \<and> (excessive_iphone_duplicates \<in> set iss \<or> excessive_ipad_duplicates \<in> set iss
        \<longrightarrow> rerun_deduplication \<in> set (generateRecommendations iss conf))
   \<and> (threads_mastodon_mismatch \<in> set iss \<longrightarrow> force_web_scraping \<in> set (generateRecommendations iss conf))
   \<and> (screenshots_not_accessible \<in> set iss
        \<longrightarrow> refresh_screenshot_urls \<in> set (generateRecommendations iss conf))
   \<and> (iss \<noteq> [] \<and> force_refresh \<notin> set (generateRecommendations iss conf)
        \<and> clear_cache \<notin> set (generateRecommendations iss conf)
        \<and> rerun_deduplication \<notin> set (generateRecommendations iss conf)
        \<and> force_web_scraping \<notin> set (generateRecommendations iss conf)
        \<and> refresh_screenshot_urls \<notin> set (generateRecommendations iss conf)
        \<longrightarrow> manual_review \<in> set (generateRecommendations iss conf))"
  by (simp add: generateRecommendations_def Let_def)

lemma performValidation_found:
  assumes "fst (checkAppPageExists net appId country v)"
  shows "recommendations (fst (performValidation net a appId country v))
           = generateRecommendations (issues (fst (performValidation net a appId country v)))
               (val_confidence (fst (performValidation net a appId country v)))"
proof -
  obtain b v1 where c: "checkAppPageExists net appId country v = (b, v1)"
    by (cases "checkAppPageExists net appId country v")
  then have b using assms by simp
  then show ?thesis
    using c by (simp add: performValidation_def Let_def split: prod.splits)
qed

lemma new_validator_miss: "\<not> cache_fresh new_validator k t"
  by (simp add: cache_fresh_def new_validator_def)

lemma first_call:
  "fst (validateScreenshots net_two_ok 0 0 ex_app ''1'' ''us'' new_validator)
     = \<lparr>isValid = True, val_confidence = 1, issues = [], recommendations = []\<rparr>"
  by code_simp

lemma first_log:
  "head_requests v_first = [''https://apps.apple.com/us/app/id1'', ''https://x/a.png'']"
  by code_simp

lemma second_call:
  "fst (validateScreenshots net_two_ok 59000 59000 ex_app ''1'' ''us'' v_first)
     = \<lparr>isValid = True, val_confidence = 1, issues = [], recommendations = []\<rparr>"
  by code_simp

lemma second_log:
  "head_requests v_second = [''https://apps.apple.com/us/app/id1'', ''https://x/a.png'']"
  by code_simp

lemma third_call:
  "fst (validateScreenshots net_two_ok 61000 61000 ex_app ''1'' ''us'' v_second)
     = \<lparr>isValid = False, val_confidence = 0, issues = [app_not_found],
        recommendations = [app_removed]\<rparr>"
  by code_simp

lemma third_log:
  "head_requests (snd (validateScreenshots net_two_ok 61000 61000 ex_app ''1'' ''us'' v_second))
     = [''https://apps.apple.com/us/app/id1'', ''https://x/a.png'',
        ''https://apps.apple.com/us/app/id1'']"
  by code_simp

lemma v_first_entry:
  "validationCache v_first (''1'' @ ''_'' @ ''us'')
     = Some (0, fst (validateScreenshots net_two_ok 0 0 ex_app ''1'' ''us'' new_validator))"
  unfolding v_first_def
  by (simp add: validate_miss [OF new_validator_miss])

lemma validateScreenshots_parts:
  "validateScreenshots net t_read t_store a appId country v =
     (case cache_lookup v appId country t_read of
        Some res \<Rightarrow> (res, v)
      | None \<Rightarrow> validate_and_store net t_store a appId country v)"
  by (simp add: validateScreenshots_def cache_lookup_def validate_and_store_def Let_def
      split: option.splits prod.splits)

lemma validate_any_hit:
  assumes "validationCache v (appId @ ''_'' @ country) = Some (ts, res)"
    and "t_read - ts < maxCacheAge"
  shows "validateScreenshots_any net t_read t_store a appId country v = (res, v)"
proof (cases a)
  case None
  then show ?thesis using assms by (simp add: validateScreenshots_any_def cache_lookup_def)
next
  case (Some r)
  then show ?thesis using assms by (simp add: validateScreenshots_any_def validate_hit)
qed

lemma validate_entry:
  assumes "validateScreenshots net t_read t_store a appId country v = (r1, v1)"
  shows "\<exists>ts. validationCache v1 (appId @ ''_'' @ country) = Some (ts, r1)
              \<and> (cache_fresh v (appId @ ''_'' @ country) t_read \<or> ts = t_store)"
proof (cases "cache_fresh v (appId @ ''_'' @ country) t_read")
  case True
  then obtain ts res where e: "validationCache v (appId @ ''_'' @ country) = Some (ts, res)"
      and f: "t_read - ts < maxCacheAge"
    by (auto simp: cache_fresh_def split: option.splits)
  have "validateScreenshots net t_read t_store a appId country v = (res, v)"
    using e f by (rule validate_hit)
  then have "r1 = res" "v1 = v" using assms by simp_all
  then show ?thesis using e True by simp
next
  case False
  then show ?thesis
    using assms validate_miss [OF False, of net t_store a] by auto
qed

lemma any_first_call:
  "validateScreenshots_any net_two_ok 0 0 (Some ex_app) ''1'' ''us'' new_validator
     = (\<lparr>isValid = True, val_confidence = 1, issues = [], recommendations = []\<rparr>, v_first)"
  using first_call by (simp add: validateScreenshots_any_def v_first_def prod_eq_iff)

lemma any_second_call:
  "validateScreenshots_any net_two_ok 59000 59000 (Some ex_app) ''1'' ''us'' v_first
     = (\<lparr>isValid = True, val_confidence = 1, issues = [], recommendations = []\<rparr>, v_second)"
  using second_call by (simp add: validateScreenshots_any_def v_second_def prod_eq_iff)

lemma v_second_fresh: "cache_fresh v_second (''1'' @ ''_'' @ ''us'') 59500"
  by code_simp

lemma v_between_kept:
  "validationCache v_between (''1'' @ ''_'' @ ''us'') = validationCache v_first (''1'' @ ''_'' @ ''us'')"
  by code_simp

lemma cleared_call:
  "fst (validateScreenshots net_two_ok 1000 1000 ex_app ''1'' ''us'' (clearCache v_first))
     = \<lparr>isValid = False, val_confidence = 0, issues = [app_not_found],
        recommendations = [app_removed]\<rparr>"
  by code_simp

lemma cleared_log:
  "head_requests (snd (validateScreenshots net_two_ok 1000 1000 ex_app ''1'' ''us'' (clearCache v_first)))
     = [''https://apps.apple.com/us/app/id1'', ''https://x/a.png'',
        ''https://apps.apple.com/us/app/id1'']"
  by code_simp

lemma cleared_before: "length (head_requests (clearCache v_first)) = 2"
  by code_simp

lemma overlap_lookup: "cache_lookup new_validator ''1'' ''us'' 0 = None"
  by code_simp

lemma overlap_first:
  "validate_and_store net_two_ok 0 ex_app ''1'' ''us'' new_validator
     = (\<lparr>isValid = True, val_confidence = 1, issues = [], recommendations = []\<rparr>, v_first)"
proof -
  have "validateScreenshots net_two_ok 0 0 ex_app ''1'' ''us'' new_validator
          = validate_and_store net_two_ok 0 ex_app ''1'' ''us'' new_validator"
    unfolding validateScreenshots_parts overlap_lookup by simp
  then show ?thesis
    using first_call by (simp add: v_first_def prod_eq_iff)
qed

lemma overlap_second:
  "fst (validate_and_store net_two_ok 1000 ex_app ''1'' ''us'' v_first)
     = \<lparr>isValid = False, val_confidence = 0, issues = [app_not_found],
        recommendations = [app_removed]\<rparr>"
  by code_simp

lemma overlap_log:
  "head_requests (snd (validate_and_store net_two_ok 1000 ex_app ''1'' ''us'' v_first))
     = [''https://apps.apple.com/us/app/id1'', ''https://x/a.png'',
        ''https://apps.apple.com/us/app/id1'']"
  by code_simp

lemma null_first_call:
  "fst (validateScreenshots_any net_two_ok 0 0 None ''1'' ''us'' new_validator)
     = \<lparr>isValid = False, val_confidence = 0, issues = [validation_failed],
        recommendations = [force_refresh]\<rparr>"
  by code_simp

lemma null_first_state:
  "snd (validateScreenshots_any net_two_ok 0 0 None ''1'' ''us'' new_validator) = v_null"
  by (simp add: v_null_def)

lemma null_first_log: "head_requests v_null = [''https://apps.apple.com/us/app/id1'']"
  by code_simp

lemma null_second_log:
  "head_requests (snd (validateScreenshots_any net_two_ok 1000 1000 None ''1'' ''us'' v_null))
     = [''https://apps.apple.com/us/app/id1'', ''https://apps.apple.com/us/app/id1'']"
  by code_simp

text \<open>
  C5, as the code has it. Take two \<^verbatim>\<open>validateScreenshots\<close> calls on one validator with the
  same app id and country, the first with an app record that is an object, the second made
  after the first has returned, in a state \<open>v2\<close> whose cache entry for the key is the one the
  first call left (other keys, and the HEAD requests sent in between, are free). If the
  first call found no fresh entry (so it validated and stored its result under the time
  read after validating) and the second reads the clock less than 60 seconds after the
  first read it, or if the entry that the first call left is less than 60 seconds old when
  the second reads the clock, then the second returns the confidence and the issues of the
  first and sends no HEAD request, whatever record it is given (\<^verbatim>\<open>null\<close> too) and whatever
  the network does.
\<close>

theorem cached_pair_identical:
  assumes first: "validateScreenshots_any net1 t1 s1 (Some a1) appId country v = (r1, v1)"
    and kept: "validationCache v2 (appId @ ''_'' @ country)
                 = validationCache v1 (appId @ ''_'' @ country)"
    and near: "(\<not> cache_fresh v (appId @ ''_'' @ country) t1 \<and> t1 \<le> s1
                  \<and> t2 - t1 < maxCacheAge)
               \<or> cache_fresh v1 (appId @ ''_'' @ country) t2"
  shows "val_confidence (fst (validateScreenshots_any net2 t2 s2 a2 appId country v2))
           = val_confidence r1
         \<and> issues (fst (validateScreenshots_any net2 t2 s2 a2 appId country v2)) = issues r1
         \<and> head_requests (snd (validateScreenshots_any net2 t2 s2 a2 appId country v2))
             = head_requests v2"
proof -
  have "validateScreenshots net1 t1 s1 a1 appId country v = (r1, v1)"
    using first by (simp add: validateScreenshots_any_def)
  then obtain ts where e: "validationCache v1 (appId @ ''_'' @ country) = Some (ts, r1)"
      and s: "cache_fresh v (appId @ ''_'' @ country) t1 \<or> ts = s1"
    using validate_entry by blast
  have "t2 - ts < maxCacheAge"
    using near
  proof
    assume "\<not> cache_fresh v (appId @ ''_'' @ country) t1 \<and> t1 \<le> s1 \<and> t2 - t1 < maxCacheAge"
    then show ?thesis using s by auto
  next
    assume "cache_fresh v1 (appId @ ''_'' @ country) t2"
    then show ?thesis using e by (simp add: cache_fresh_def)
  qed
  moreover have "validationCache v2 (appId @ ''_'' @ country) = Some (ts, r1)"
    using kept e by simp
  ultimately have "validateScreenshots_any net2 t2 s2 a2 appId country v2 = (r1, v2)"
    by (rule validate_any_hit [rotated])
  then show ?thesis by simp
qed

theorem cached_pair_identical_witness:
  "\<not> cache_fresh new_validator (''1'' @ ''_'' @ ''us'') 0 \<and> (0 :: int) \<le> 0
   \<and> (59000 :: int) - 0 < maxCacheAge
   \<and> validationCache v_between (''1'' @ ''_'' @ ''us'')
       = validationCache v_first (''1'' @ ''_'' @ ''us'')
   \<and> val_confidence (fst (validateScreenshots_any net_down 59000 59000 None ''1'' ''us'' v_between))
       = 1
   \<and> issues (fst (validateScreenshots_any net_down 59000 59000 None ''1'' ''us'' v_between)) = []
   \<and> head_requests (snd (validateScreenshots_any net_down 59000 59000 None ''1'' ''us'' v_between))
       = head_requests v_between
   \<and> cache_fresh v_second (''1'' @ ''_'' @ ''us'') 59500
   \<and> val_confidence
         (fst (validateScreenshots_any net_down 59500 59500 (Some empty_app) ''1'' ''us'' v_second))
       = 1
   \<and> issues (fst (validateScreenshots_any net_down 59500 59500 (Some empty_app) ''1'' ''us'' v_second))
       = []
   \<and> head_requests
         (snd (validateScreenshots_any net_down 59500 59500 (Some empty_app) ''1'' ''us'' v_second))
       = head_requests v_second"
proof -
  have t: "(0 :: int) \<le> 0" "(59000 :: int) - 0 < maxCacheAge"
    by (simp_all add: maxCacheAge_def)
  have n1: "(\<not> cache_fresh new_validator (''1'' @ ''_'' @ ''us'') 0 \<and> (0 :: int) \<le> 0
              \<and> (59000 :: int) - 0 < maxCacheAge)
            \<or> cache_fresh v_first (''1'' @ ''_'' @ ''us'') 59000"
    using new_validator_miss t by blast
  have n2: "(\<not> cache_fresh v_first (''1'' @ ''_'' @ ''us'') 59000 \<and> (59000 :: int) \<le> 59000
              \<and> (59500 :: int) - 59000 < maxCacheAge)
            \<or> cache_fresh v_second (''1'' @ ''_'' @ ''us'') 59500"
    using v_second_fresh by blast
  have r: "val_confidence \<lparr>isValid = True, val_confidence = 1, issues = [], recommendations = []\<rparr> = 1"
    "issues \<lparr>isValid = True, val_confidence = 1, issues = [], recommendations = []\<rparr> = []"
    by simp_all
  show ?thesis
    using cached_pair_identical [OF any_first_call v_between_kept n1, of net_down 59000 None]
      cached_pair_identical [OF any_second_call refl n2, of net_down 59500 "Some empty_app"]
      new_validator_miss t v_between_kept v_second_fresh
    unfolding r by blast
qed

text \<open>
  C5 as stated fails, in four ways. A cache hit keeps the entry's timestamp: after a first
  call at time 0, a second call at 59 s is served from the cache, and a third call at 61 s,
  two seconds after the second, finds the entry expired, sends a HEAD request and returns
  another confidence and other issues. With \<^verbatim>\<open>clearCache\<close> between a first call at time 0 and a
  second call one second later, the second validates again. When the second call is made
  before the first has stored its result, both find the cache empty and both validate: the
  second sends its own HEAD request and returns another confidence and other issues. And
  when the first call is given \<^verbatim>\<open>null\<close> for the record of an app whose page exists, the
  \<^verbatim>\<open>TypeError\<close> is caught and nothing is stored, so a second call one second later sends a
  HEAD request again.
\<close>

theorem cached_pair_counterexample:
  "(61000 :: int) - 59000 < maxCacheAge
   \<and> val_confidence (fst (validateScreenshots net_two_ok 59000 59000 ex_app ''1'' ''us'' v_first)) = 1
   \<and> issues (fst (validateScreenshots net_two_ok 59000 59000 ex_app ''1'' ''us'' v_first)) = []
   \<and> val_confidence (fst (validateScreenshots net_two_ok 61000 61000 ex_app ''1'' ''us'' v_second)) = 0
   \<and> issues (fst (validateScreenshots net_two_ok 61000 61000 ex_app ''1'' ''us'' v_second))
       = [app_not_found]
   \<and> length (head_requests v_second) = 2
   \<and> length (head_requests
               (snd (validateScreenshots net_two_ok 61000 61000 ex_app ''1'' ''us'' v_second))) = 3
   \<and> (1000 :: int) - 0 < maxCacheAge
   \<and> val_confidence (fst (validateScreenshots net_two_ok 0 0 ex_app ''1'' ''us'' new_validator)) = 1
   \<and> val_confidence
         (fst (validateScreenshots net_two_ok 1000 1000 ex_app ''1'' ''us'' (clearCache v_first))) = 0
   \<and> issues (fst (validateScreenshots net_two_ok 1000 1000 ex_app ''1'' ''us'' (clearCache v_first)))
       = [app_not_found]
   \<and> length (head_requests (clearCache v_first)) = 2
   \<and> length (head_requests
               (snd (validateScreenshots net_two_ok 1000 1000 ex_app ''1'' ''us''
                       (clearCache v_first)))) = 3
   \<and> cache_lookup new_validator ''1'' ''us'' 0 = None
   \<and> val_confidence (fst (validate_and_store net_two_ok 0 ex_app ''1'' ''us'' new_validator)) = 1
   \<and> snd (validate_and_store net_two_ok 0 ex_app ''1'' ''us'' new_validator) = v_first
   \<and> val_confidence (fst (validate_and_store net_two_ok 1000 ex_app ''1'' ''us'' v_first)) = 0
   \<and> issues (fst (validate_and_store net_two_ok 1000 ex_app ''1'' ''us'' v_first))
       = [app_not_found]
   \<and> length (head_requests v_first) = 2
   \<and> length (head_requests
               (snd (validate_and_store net_two_ok 1000 ex_app ''1'' ''us'' v_first))) = 3
   \<and> issues (fst (validateScreenshots_any net_two_ok 0 0 None ''1'' ''us'' new_validator))
       = [validation_failed]
   \<and> snd (validateScreenshots_any net_two_ok 0 0 None ''1'' ''us'' new_validator) = v_null
   \<and> length (head_requests v_null) = 1
   \<and> length (head_requests
               (snd (validateScreenshots_any net_two_ok 1000 1000 None ''1'' ''us'' v_null))) = 2"
  by (simp add: second_call third_call second_log third_log maxCacheAge_def first_call
      cleared_call cleared_log cleared_before overlap_lookup overlap_first overlap_second
      overlap_log first_log null_first_call null_first_state null_first_log null_second_log)

lemma empty_app_call:
  "fst (validateScreenshots net_two_ok 0 0 empty_app ''1'' ''us'' new_validator)
     = \<lparr>isValid = False, val_confidence = 3 / 10, issues = [no_screenshots],
        recommendations = [clear_cache]\<rparr>"
  by code_simp

lemma page_found: "fst (checkAppPageExists net_two_ok ''1'' ''us'' new_validator)"
  by code_simp

lemma page_down_call:
  "fst (validateScreenshots net_down 0 0 ex_app ''1'' ''us'' new_validator)
     = \<lparr>isValid = False, val_confidence = 0, issues = [app_not_found],
        recommendations = [app_removed]\<rparr>"
  by code_simp

lemma one_unreachable_call:
  "fst (validateScreenshots net_fourth_fails 0 0 three_shot_app ''1'' ''us'' new_validator)
     = \<lparr>isValid = False, val_confidence = 7 / 10, issues = [some_screenshots_inaccessible],
        recommendations = [manual_review]\<rparr>"
  by code_simp

text \<open>
  C7, as the code has it. For every \<^verbatim>\<open>validateScreenshots\<close> call that finds no fresh cache
  entry and whose existence check of the app page succeeds, the recommendations include
  \<open>force_refresh\<close> if confidence is below 0.3 and \<open>clear_cache\<close> if it is at least 0.3 and below
  0.7; a duplicate issue adds \<open>rerun_deduplication\<close>, the known-mismatch issue adds
  \<open>force_web_scraping\<close>, the issue \<open>screenshots_not_accessible\<close> adds \<open>refresh_screenshot_urls\<close>;
  and if there are issues and none of these recommendations, \<open>manual_review\<close> is there.
\<close>

theorem recommendations_follow_rules:
  assumes call: "validateScreenshots net t_read t_store a appId country v = (r, v1)"
    and miss: "\<not> cache_fresh v (appId @ ''_'' @ country) t_read"
    and page: "fst (checkAppPageExists net appId country v)"
  shows "(val_confidence r < 3 / 10 \<longrightarrow> force_refresh \<in> set (recommendations r))
   \<and> (3 / 10 \<le> val_confidence r \<and> val_confidence r < 7 / 10 \<longrightarrow> clear_cache \<in> set (recommendations r))
   \<and> (excessive_iphone_duplicates \<in> set (issues r) \<or> excessive_ipad_duplicates \<in> set (issues r)
        \<longrightarrow> rerun_deduplication \<in> set (recommendations r))
   \<and> (threads_mastodon_mismatch \<in> set (issues r) \<longrightarrow> force_web_scraping \<in> set (recommendations r))
   \<and> (screenshots_not_accessible \<in> set (issues r)
        \<longrightarrow> refresh_screenshot_urls \<in> set (recommendations r))
   \<and> (issues r \<noteq> [] \<and> force_refresh \<notin> set (recommendations r)
        \<and> clear_cache \<notin> set (recommendations r)
        \<and> rerun_deduplication \<notin> set (recommendations r)
        \<and> force_web_scraping \<notin> set (recommendations r)
        \<and> refresh_screenshot_urls \<notin> set (recommendations r)
        \<longrightarrow> manual_review \<in> set (recommendations r))"
proof -
  have "r = fst (performValidation net a appId country v)"
    using call validate_miss [OF miss, of net t_store a] by simp
  then have "recommendations r = generateRecommendations (issues r) (val_confidence r)"
    using performValidation_found [OF page, of a] by simp
  then show ?thesis
    using generateRecommendations_rules [of "val_confidence r" "issues r"] by simp
qed

theorem recommendations_follow_rules_witness:
  "\<not> cache_fresh new_validator (''1'' @ ''_'' @ ''us'') 0
   \<and> fst (checkAppPageExists net_two_ok ''1'' ''us'' new_validator)
   \<and> 3 / 10 \<le> val_confidence (fst (validateScreenshots net_two_ok 0 0 empty_app ''1'' ''us'' new_validator))
   \<and> val_confidence (fst (validateScreenshots net_two_ok 0 0 empty_app ''1'' ''us'' new_validator)) < 7 / 10
   \<and> clear_cache \<in> set (recommendations
         (fst (validateScreenshots net_two_ok 0 0 empty_app ''1'' ''us'' new_validator)))"
proof -
  have c: "validateScreenshots net_two_ok 0 0 empty_app ''1'' ''us'' new_validator
             = (fst (validateScreenshots net_two_ok 0 0 empty_app ''1'' ''us'' new_validator),
                snd (validateScreenshots net_two_ok 0 0 empty_app ''1'' ''us'' new_validator))"
    by simp
  have r: "3 / 10 \<le> val_confidence (fst (validateScreenshots net_two_ok 0 0 empty_app ''1'' ''us'' new_validator))"
    "val_confidence (fst (validateScreenshots net_two_ok 0 0 empty_app ''1'' ''us'' new_validator)) < 7 / 10"
    by (simp_all add: empty_app_call)
  show ?thesis
    using recommendations_follow_rules [OF c new_validator_miss page_found] r new_validator_miss
      page_found
    by blast
qed

text \<open>
  C7 as stated fails when the app page is not found: the result has confidence 0 and the
  single recommendation \<open>app_removed\<close>, without \<open>force_refresh\<close>. Of the two issues
  about reachability only \<open>screenshots_not_accessible\<close> adds \<open>refresh_screenshot_urls\<close>: when one
  sampled URL of three is unreachable the issue is \<open>some_screenshots_inaccessible\<close> and the
  recommendation is \<open>manual_review\<close>.
\<close>

theorem recommendations_counterexample:
  "val_confidence (fst (validateScreenshots net_down 0 0 ex_app ''1'' ''us'' new_validator)) < 3 / 10
   \<and> force_refresh \<notin> set (recommendations
         (fst (validateScreenshots net_down 0 0 ex_app ''1'' ''us'' new_validator)))
   \<and> recommendations (fst (validateScreenshots net_down 0 0 ex_app ''1'' ''us'' new_validator))
       = [app_removed]
   \<and> issues (fst (validateScreenshots net_fourth_fails 0 0 three_shot_app ''1'' ''us'' new_validator))
       = [some_screenshots_inaccessible]
   \<and> recommendations
         (fst (validateScreenshots net_fourth_fails 0 0 three_shot_app ''1'' ''us'' new_validator))
       = [manual_review]"
  by (simp add: page_down_call one_unreachable_call)

lemma tv_app_call:
  "fst (validateScreenshots net_two_ok 0 0
          (ex_app\<lparr>appletvScreenshots := Some [''https://x/tv/2019/05/mastodon_old.png'']\<rparr>)
          ''1'' ''us'' new_validator)
     = \<lparr>isValid = True, val_confidence = 1, issues = [], recommendations = []\<rparr>"
  by code_simp

text \<open>
  C9. The result of \<^verbatim>\<open>validateScreenshots\<close>, and the validator's state after the call, do not
  depend on the \<open>appletvScreenshots\<close> property of the app record.
\<close>

theorem validate_ignores_tv:
  "validateScreenshots net t_read t_store (a\<lparr>appletvScreenshots := x\<rparr>) appId country v
     = validateScreenshots net t_read t_store a appId country v"
  by (simp add: validateScreenshots_def performValidation_tv)

theorem validate_ignores_tv_witness:
  "validateScreenshots net_two_ok 0 0
     (ex_app\<lparr>appletvScreenshots := Some [''https://x/tv/2019/05/mastodon_old.png'']\<rparr>)
     ''1'' ''us'' new_validator
   = validateScreenshots net_two_ok 0 0 ex_app ''1'' ''us'' new_validator
   \<and> fst (validateScreenshots net_two_ok 0 0
          (ex_app\<lparr>appletvScreenshots := Some [''https://x/tv/2019/05/mastodon_old.png'']\<rparr>)
          ''1'' ''us'' new_validator)
     = \<lparr>isValid = True, val_confidence = 1, issues = [], recommendations = []\<rparr>"
  using validate_ignores_tv [where net = net_two_ok and t_read = 0 and t_store = 0
      and a = ex_app and x = "Some [''https://x/tv/2019/05/mastodon_old.png'']"
      and appId = "''1''" and country = "''us''" and v = new_validator]
    tv_app_call
  by blast

text \<open>
  C10. On a cache hit, that is when the cache holds an entry for the app id and country
  whose timestamp is less than 60 seconds before the time read, \<^verbatim>\<open>validateScreenshots\<close>
  returns the cached result and leaves the validator as it is, whatever app record it is
  given.
\<close>

theorem cache_hit_ignores_collections:
  assumes "validationCache v (appId @ ''_'' @ country) = Some (ts, res)"
    and "t_read - ts < maxCacheAge"
  shows "validateScreenshots net t_read t_store a2 appId country v = (res, v)
         \<and> validateScreenshots net t_read t_store a2 appId country v
             = validateScreenshots net t_read t_store a1 appId country v"
  using assms by (simp add: validate_hit)

theorem cache_hit_ignores_collections_witness:
  "validationCache v_first (''1'' @ ''_'' @ ''us'')
     = Some (0, fst (validateScreenshots net_two_ok 0 0 ex_app ''1'' ''us'' new_validator))
   \<and> (59000 :: int) - 0 < maxCacheAge
   \<and> validateScreenshots net_two_ok 59000 59000 tv_only_app ''1'' ''us'' v_first
       = (fst (validateScreenshots net_two_ok 0 0 ex_app ''1'' ''us'' new_validator), v_first)
   \<and> validateScreenshots net_two_ok 59000 59000 tv_only_app ''1'' ''us'' v_first
       = validateScreenshots net_two_ok 59000 59000 ex_app ''1'' ''us'' v_first"
proof -
  have t: "(59000 :: int) - 0 < maxCacheAge" by (simp add: maxCacheAge_def)
  show ?thesis
    using cache_hit_ignores_collections [OF v_first_entry t, where net = net_two_ok
        and t_store = 59000 and ?a2.0 = tv_only_app and ?a1.0 = ex_app]
      v_first_entry t
    by blast
qed

section \<open>The deduplicator\<close>

lemma fallbackId_clean: "fallbackId r u = ''fallback_'' @ cleanName u"
  by (simp add: fallbackId_def)

lemma extractContentId_content_id: "extractContentId r u a = content_id a u"
  unfolding content_id_def extractContentId_def fallbackId_clean by (rule refl)

lemma foldl_enumerate:
  "foldl (\<lambda>g (i, u). f g u) acc (enumerate n xs) = foldl f acc xs"
  by (induction xs arbitrary: n acc) simp_all

lemma map_filter_enumerate:
  "map (\<lambda>(i, u). f u) (filter (\<lambda>(i, u). P u) (enumerate n xs)) = map f (filter P xs)"
  by (induction xs arbitrary: n) simp_all

lemma groupByContent_eq:
  "groupByContent rnd urls a =
     foldl (\<lambda>g u. if u = [] then g else group_add (content_id a u) u g) [] urls"
  unfolding groupByContent_def extractContentId_content_id by (rule foldl_enumerate)

lemma contentIds_eq:
  "contentIds rnd urls = map (content_id (analyzeUrlPatterns urls)) (filter (\<lambda>u. u \<noteq> []) urls)"
  unfolding contentIds_def extractContentId_content_id by (rule map_filter_enumerate)

lemma keys_group_add:
  "map fst (group_add k u gs) = (if k \<in> set (map fst gs) then map fst gs else map fst gs @ [k])"
proof (induction gs)
  case Nil
  then show ?case by simp
next
  case (Cons g gs)
  obtain k' v vs where g: "g = (k', v, vs)" by (cases g)
  show ?case
  proof (cases "k' = k")
    case True
    then show ?thesis using g by simp
  next
    case False
    then show ?thesis using g Cons.IH by (cases "k \<in> fst ` set gs") simp_all
  qed
qed

lemma keys_groups:
  "distinct (map fst acc) \<Longrightarrow>
   distinct (map fst (foldl (\<lambda>g u. if u = [] then g else group_add (f u) u g) acc urls))
   \<and> set (map fst (foldl (\<lambda>g u. if u = [] then g else group_add (f u) u g) acc urls))
       = set (map fst acc) \<union> f ` {u \<in> set urls. u \<noteq> []}"
proof (induction urls arbitrary: acc)
  case Nil
  then show ?case by simp
next
  case (Cons u urls)
  show ?case
  proof (cases "u = []")
    case True
    then show ?thesis using Cons.IH [OF Cons.prems] by auto
  next
    case False
    have d: "distinct (map fst (group_add (f u) u acc))"
      using Cons.prems by (simp add: keys_group_add)
    have s: "set (map fst (group_add (f u) u acc)) = insert (f u) (set (map fst acc))"
      by (auto simp: keys_group_add)
    show ?thesis using Cons.IH [OF d] False s by auto
  qed
qed

lemma members_Nil: "group_members [] = []"
  by (simp add: group_members_def)

lemma members_Cons: "group_members ((k, v, vs) # gs) = map (Pair k) (v # vs) @ group_members gs"
  by (simp add: group_members_def)

lemma members_group_add:
  "set (group_members (group_add k0 u gs)) = insert (k0, u) (set (group_members gs))"
proof (induction gs)
  case Nil
  then show ?case by (simp add: members_Nil members_Cons)
next
  case (Cons g gs)
  obtain k v vs where g: "g = (k, v, vs)" by (cases g)
  show ?case
  proof (cases "k = k0")
    case True
    then show ?thesis using g by (auto simp: members_Cons)
  next
    case False
    then show ?thesis using g Cons.IH by (auto simp: members_Cons)
  qed
qed

lemma members_groups:
  "set (group_members (foldl (\<lambda>g u. if u = [] then g else group_add (f u) u g) acc urls))
     = set (group_members acc) \<union> (\<lambda>u. (f u, u)) ` {u \<in> set urls. u \<noteq> []}"
proof (induction urls arbitrary: acc)
  case Nil
  then show ?case by simp
next
  case (Cons u urls)
  show ?case
  proof (cases "u = []")
    case True
    then show ?thesis using Cons.IH [of acc] by auto
  next
    case False
    then show ?thesis using Cons.IH [of "group_add (f u) u acc"] by (auto simp: members_group_add)
  qed
qed

lemma members_iff:
  "(k, x) \<in> set (group_members gs) \<longleftrightarrow> (\<exists>v vs. (k, v, vs) \<in> set gs \<and> x \<in> set (v # vs))"
proof (induction gs)
  case Nil
  then show ?case by (simp add: members_Nil)
next
  case (Cons g gs)
  obtain k' w ws where g: "g = (k', w, ws)" by (cases g)
  show ?case using Cons.IH g by (auto simp: members_Cons)
qed

lemma compareUrls_new:
  "\<not> str_includes ''_new'' a \<Longrightarrow> str_includes ''_new'' b \<Longrightarrow> compareUrls p a b = 1"
  "str_includes ''_new'' a \<Longrightarrow> \<not> str_includes ''_new'' b \<Longrightarrow> compareUrls p a b = - 1"
  by (simp_all add: compareUrls_def Let_def)

lemma hd_insert_by_new:
  "str_includes ''_new'' (hd (insert_by (compareUrls p) x (y # ys)))
     \<longleftrightarrow> str_includes ''_new'' x \<or> str_includes ''_new'' y"
  using compareUrls_new [of x y p] compareUrls_new [of y x p] compareUrls_new(2) [of x y p]
  by (cases "str_includes ''_new'' x"; cases "str_includes ''_new'' y") auto

lemma hd_sort_by_new:
  "xs \<noteq> [] \<Longrightarrow>
   str_includes ''_new'' (hd (sort_by (compareUrls p) xs)) \<longleftrightarrow> (\<exists>x \<in> set xs. str_includes ''_new'' x)"
proof (induction xs)
  case Nil
  then show ?case by simp
next
  case (Cons x xs)
  show ?case
  proof (cases "xs = []")
    case True
    then show ?thesis by simp
  next
    case False
    then obtain y ys where s: "sort_by (compareUrls p) xs = y # ys"
      using sort_by_nonempty [of xs] by (cases "sort_by (compareUrls p) xs") auto
    then have "y = hd (sort_by (compareUrls p) xs)" by simp
    then show ?thesis using Cons.IH [OF False] s hd_insert_by_new [of p x y ys] by simp
  qed
qed

lemma selectBestUrl_hd: "selectBestUrl u us p = hd (sort_by (compareUrls p) (u # us))"
  using sort_by_nonempty [of "u # us" "compareUrls p"]
  by (cases "sort_by (compareUrls p) (u # us)") (simp_all add: selectBestUrl_def)

lemma selectBestUrl_member: "selectBestUrl u us p \<in> set (u # us)"
proof -
  have "hd (sort_by (compareUrls p) (u # us)) \<in> set (sort_by (compareUrls p) (u # us))"
    using sort_by_nonempty [of "u # us" "compareUrls p"] by (intro hd_in_set) simp
  then show ?thesis by (simp add: selectBestUrl_hd set_sort_by del: sort_by.simps)
qed

lemma selectBestUrl_new:
  "str_includes ''_new'' (selectBestUrl u us p) \<longleftrightarrow> (\<exists>x \<in> set (u # us). str_includes ''_new'' x)"
  unfolding selectBestUrl_hd by (rule hd_sort_by_new) simp

lemma representative_member:
  "(if vs = [] then v else selectBestUrl v vs p) \<in> set (v # vs)"
  using selectBestUrl_member [of v vs p] by simp

lemma representative_new:
  "str_includes ''_new'' (if vs = [] then v else selectBestUrl v vs p)
     \<longleftrightarrow> (\<exists>x \<in> set (v # vs). str_includes ''_new'' x)"
  using selectBestUrl_new [of v vs p] by simp

lemma deduplicate_eq:
  "deduplicate rnd lc urls p =
     sortRepresentatives lc
       (map (\<lambda>(k, v, vs). if vs = [] then v else selectBestUrl v vs p)
          (foldl (\<lambda>g u. if u = [] then g else group_add (content_id (analyzeUrlPatterns urls) u) u g) [] urls))"
proof (cases "urls = []")
  case True
  then show ?thesis by (simp add: deduplicate_def sortRepresentatives_def)
next
  case False
  then show ?thesis
    by (simp add: deduplicate_def selectBestRepresentatives_def groupByContent_eq)
qed

lemma representatives_ids:
  assumes "\<And>k v vs x. (k, v, vs) \<in> set gs \<Longrightarrow> x \<in> set (v # vs) \<Longrightarrow> f x = k"
  shows "map f (map (\<lambda>(k, v, vs). if vs = [] then v else selectBestUrl v vs p) gs) = map fst gs"
  using assms
proof (induction gs)
  case Nil
  then show ?case by simp
next
  case (Cons g gs)
  obtain k v vs where g: "g = (k, v, vs)" by (cases g)
  have "f (if vs = [] then v else selectBestUrl v vs p) = k"
    using Cons.prems [of k v vs] representative_member [of vs v p] g by simp
  moreover have "map f (map (\<lambda>(k, v, vs). if vs = [] then v else selectBestUrl v vs p) gs) = map fst gs"
  proof (rule Cons.IH)
    fix k' v' vs' x
    assume "(k', v', vs') \<in> set gs" and "x \<in> set (v' # vs')"
    then show "f x = k'" using Cons.prems [of k' v' vs' x] by simp
  qed
  ultimately show ?case using g by simp
qed

lemma groups_ids:
  assumes "(k, v, vs) \<in> set (foldl (\<lambda>g u. if u = [] then g else group_add (f u) u g) [] urls)"
    and "x \<in> set (v # vs)"
  shows "f x = k \<and> x \<in> set urls \<and> x \<noteq> []"
proof -
  have "(k, x) \<in> set (group_members (foldl (\<lambda>g u. if u = [] then g else group_add (f u) u g) [] urls))"
    using assms members_iff by blast
  then show ?thesis by (auto simp: members_groups members_Nil)
qed

lemma content_id_unknown:
  "dominantPattern a = Unknown \<Longrightarrow> content_id a u = ''fallback_'' @ cleanName u"
  by (simp add: content_id_def extractContentId_def fallbackId_clean)

lemma distinct_map_prefix: "distinct (map (\<lambda>u. pre @ g u) xs) \<longleftrightarrow> distinct (map g xs)"
  by (induction xs) auto

lemma image_prefix_eq: "(\<lambda>u. pre @ g u) ` A = (\<lambda>u. pre @ g u) ` B \<longleftrightarrow> g ` A = g ` B"
proof -
  have "(\<lambda>u. pre @ g u) ` X = (\<lambda>n. pre @ n) ` (g ` X)" for X
    by (simp add: image_image)
  moreover have "inj (\<lambda>n. pre @ n)" by (simp add: inj_on_def)
  ultimately show ?thesis by (simp add: inj_image_eq_iff)
qed

lemma home_variants_unknown: "dominantPattern (analyzeUrlPatterns home_variants) = Unknown"
  by code_simp

lemma home_variants_deduplicated:
  "deduplicate no_random compare_bytes home_variants iPhone
     = [''https://cdn/app/Home_200x200_new.jpg'', ''https://cdn/app/Menu_1x1.png'']"
  by code_simp

lemma size_variants_names: "map cleanName size_variants = [''shot'', ''shot'']"
  by code_simp

lemma size_variants_deduplicated:
  "deduplicate no_random compare_bytes size_variants iPhone
     = [''https://cdn/app/shot-100x100.jpg'', ''https://cdn/app/shot-200x200.jpg'']"
  by code_simp

lemma size_variants_numbered: "dominantPattern (analyzeUrlPatterns size_variants) = Numbered"
  by code_simp

text \<open>
  C6, as the code has it. When no naming scheme is detected in the input (no URL carries a
  sequence index, a slice index, a numeric suffix or a hash, so the content identifier is the
  stripped base name), \<^verbatim>\<open>deduplicate\<close> returns exactly one representative per distinct stripped
  base name of the non-empty input URLs, each taken from the input; and when a base name has a
  variant containing \<open>_new\<close>, its representative contains \<open>_new\<close>.
\<close>

theorem deduplicate_by_base_name:
  assumes unk: "dominantPattern (analyzeUrlPatterns urls) = Unknown"
  shows "distinct (map cleanName (deduplicate rnd lc urls p))
       \<and> set (map cleanName (deduplicate rnd lc urls p)) = set (map cleanName (filter (\<lambda>u. u \<noteq> []) urls))
       \<and> set (deduplicate rnd lc urls p) \<subseteq> set urls
       \<and> (\<forall>u \<in> set urls. u \<noteq> [] \<and> str_includes ''_new'' u \<longrightarrow>
            (\<exists>x \<in> set (deduplicate rnd lc urls p). cleanName x = cleanName u \<and> str_includes ''_new'' x))"
proof -
  let ?a = "analyzeUrlPatterns urls"
  let ?f = "content_id ?a"
  let ?gs = "foldl (\<lambda>g u. if u = [] then g else group_add (?f u) u g) [] urls"
  let ?rep = "\<lambda>(k, v, vs). if vs = [] then v else selectBestUrl v vs p"
  let ?reps = "map ?rep ?gs"
  have f: "?f u = ''fallback_'' @ cleanName u" for u
    using unk by (rule content_id_unknown)
  have out: "deduplicate rnd lc urls p = sort_by
      (\<lambda>a b. case (extractSequenceNumber a, extractSequenceNumber b) of
                (Some x, Some y) \<Rightarrow> x - y | _ \<Rightarrow> lc a b) ?reps"
    by (simp add: deduplicate_eq sortRepresentatives_def)
  have k: "distinct (map fst ?gs) \<and> set (map fst ?gs) = ?f ` {u \<in> set urls. u \<noteq> []}"
    using keys_groups [of "[]" ?f urls] by simp
  have ids: "map ?f ?reps = map fst ?gs"
    by (rule representatives_ids) (use groups_ids [of _ _ _ ?f urls] in blast)
  have fe: "?f = (\<lambda>u. ''fallback_'' @ cleanName u)"
    using f by (intro ext)
  have "distinct (map ?f ?reps)" unfolding ids using k by blast
  then have "distinct (map cleanName ?reps)"
    unfolding fe by (simp only: distinct_map_prefix)
  then have c1: "distinct (map cleanName (deduplicate rnd lc urls p))"
    unfolding out by (simp only: distinct_map_sort_by)
  have "set (map ?f ?reps) = ?f ` {u \<in> set urls. u \<noteq> []}" unfolding ids using k by blast
  then have "?f ` set ?reps = ?f ` {u \<in> set urls. u \<noteq> []}" by (simp only: set_map)
  then have "cleanName ` set ?reps = cleanName ` {u \<in> set urls. u \<noteq> []}"
    unfolding fe by (simp only: image_prefix_eq)
  then have c2: "set (map cleanName (deduplicate rnd lc urls p))
                   = set (map cleanName (filter (\<lambda>u. u \<noteq> []) urls))"
    unfolding out by (simp only: set_map set_sort_by set_filter)
  have mem: "x \<in> set ?reps \<Longrightarrow> x \<in> set urls" for x
  proof -
    assume "x \<in> set ?reps"
    then obtain k v vs where g: "(k, v, vs) \<in> set ?gs" "x = (if vs = [] then v else selectBestUrl v vs p)"
      by auto
    then have "x \<in> set (v # vs)" using representative_member [of vs v p] by simp
    then show "x \<in> set urls" using groups_ids [OF g(1)] by blast
  qed
  have so: "set (deduplicate rnd lc urls p) = set ?reps"
    unfolding out by (simp only: set_sort_by)
  have c3: "set (deduplicate rnd lc urls p) \<subseteq> set urls"
    unfolding so using mem by blast
  have c4: "\<exists>x \<in> set (deduplicate rnd lc urls p). cleanName x = cleanName u \<and> str_includes ''_new'' x"
    if u: "u \<in> set urls" "u \<noteq> []" "str_includes ''_new'' u" for u
  proof -
    have "(?f u, u) \<in> set (group_members ?gs)"
      using u by (auto simp: members_groups members_Nil)
    then obtain v vs where g: "(?f u, v, vs) \<in> set ?gs" "u \<in> set (v # vs)"
      using members_iff by blast
    let ?x = "if vs = [] then v else selectBestUrl v vs p"
    have n: "str_includes ''_new'' ?x"
      using representative_new [of vs v p] g(2) u(3) by blast
    have "?x \<in> set (v # vs)" by (rule representative_member)
    then have "?f ?x = ?f u" using groups_ids [OF g(1)] by blast
    then have cn: "cleanName ?x = cleanName u" using f by simp
    have "?x \<in> set ?reps" using g(1) by force
    then have "?x \<in> set (deduplicate rnd lc urls p)" unfolding so .
    then show ?thesis using n cn by blast
  qed
  show ?thesis using c1 c2 c3 c4 by blast
qed

theorem deduplicate_by_base_name_witness:
  "dominantPattern (analyzeUrlPatterns home_variants) = Unknown
   \<and> distinct (map cleanName (deduplicate no_random compare_bytes home_variants iPhone))
   \<and> set (map cleanName (deduplicate no_random compare_bytes home_variants iPhone))
       = set (map cleanName (filter (\<lambda>u. u \<noteq> []) home_variants))
   \<and> deduplicate no_random compare_bytes home_variants iPhone
       = [''https://cdn/app/Home_200x200_new.jpg'', ''https://cdn/app/Menu_1x1.png'']"
  using deduplicate_by_base_name [OF home_variants_unknown, where rnd = no_random
      and lc = compare_bytes and p = iPhone]
    home_variants_unknown home_variants_deduplicated
  by blast

text \<open>
  C6 as stated fails: two URLs that differ only in their size token and share the stripped
  base name \<open>shot\<close> are both returned, because the size token is read as a numeric suffix and
  becomes the content identifier.
\<close>

theorem deduplicate_by_base_name_counterexample:
  "map cleanName size_variants = [''shot'', ''shot'']
   \<and> dominantPattern (analyzeUrlPatterns size_variants) = Numbered
   \<and> deduplicate no_random compare_bytes size_variants iPhone
       = [''https://cdn/app/shot-100x100.jpg'', ''https://cdn/app/shot-200x200.jpg'']
   \<and> length (deduplicate no_random compare_bytes size_variants iPhone) = 2"
  by (simp add: size_variants_names size_variants_numbered size_variants_deduplicated)

text \<open>
  C8. For every URL sequence and platform, the output of \<^verbatim>\<open>deduplicate\<close> has as many URLs as
  there are distinct content identifiers among the non-empty input URLs, and it is the same
  for every source of random strings (for a fixed \<open>localeCompare\<close>).
\<close>

theorem deduplicate_deterministic:
  "length (deduplicate rnd lc urls p) = card (set (contentIds rnd urls))
   \<and> deduplicate rnd lc urls p = deduplicate rnd' lc urls p"
proof
  let ?f = "content_id (analyzeUrlPatterns urls)"
  let ?gs = "foldl (\<lambda>g u. if u = [] then g else group_add (?f u) u g) [] urls"
  have k: "distinct (map fst ?gs) \<and> set (map fst ?gs) = ?f ` {u \<in> set urls. u \<noteq> []}"
    using keys_groups [of "[]" ?f urls] by simp
  have "length (deduplicate rnd lc urls p) = length (map fst ?gs)"
    by (simp add: deduplicate_eq sortRepresentatives_def length_sort_by)
  also have "\<dots> = card (set (map fst ?gs))"
    using k distinct_card [of "map fst ?gs"] by simp
  also have "\<dots> = card (set (contentIds rnd urls))"
    using k by (simp add: contentIds_eq)
  finally show "length (deduplicate rnd lc urls p) = card (set (contentIds rnd urls))" .
next
  show "deduplicate rnd lc urls p = deduplicate rnd' lc urls p"
    by (simp add: deduplicate_eq)
qed

theorem deduplicate_deterministic_witness:
  "length (deduplicate no_random compare_bytes home_variants iPhone)
     = card (set (contentIds no_random home_variants))
   \<and> deduplicate no_random compare_bytes home_variants iPhone
       = deduplicate other_random compare_bytes home_variants iPhone
   \<and> length (deduplicate no_random compare_bytes home_variants iPhone) = 2"
proof -
  have "length (deduplicate no_random compare_bytes home_variants iPhone) = 2"
    by (simp add: home_variants_deduplicated)
  then show ?thesis
    using deduplicate_deterministic [where rnd = no_random and lc = compare_bytes
        and urls = home_variants and p = iPhone and rnd' = other_random]
    by blast
qed


end
